theory Spec2Isabelle
  imports Main
begin

section \<open>Data model\<close>

text \<open>
  The backend keeps two Mongoose collections, \<open>Blog\<close> (models/Blog.js) and \<open>Comment\<close>
  (models/Comment.js).  A document is a record, a collection is the list of its documents
  in insertion order, and the database is the pair of both collections.  An ObjectId is a
  natural number; \<open>_id\<close> is the field \<open>oid\<close>.  Strings are lists of code units.  The
  fields of a comment carry the prefix \<open>c_\<close>, because both schemas have fields called
  \<open>content\<close>, \<open>likes\<close>, \<open>likesCount\<close> and \<open>isDeleted\<close>.  Numbers that the
  code only counts with are integers (\<open>commentsCount\<close> is decremented without a floor).
  Of the two timestamps Mongoose maintains, only the comment's \<open>createdAt\<close> is kept: it is
  the default sort key of getComments; no modelled operation reads the others.
\<close>

type_synonym objectId = nat

datatype blogStatus = Pending | Published | Rejected

record Blog =
  oid :: objectId
  title :: string
  slug :: string
  content :: string
  excerpt :: "string option"
  coverImage :: string
  author :: objectId
  category :: string
  tags :: "string list"
  status :: blogStatus
  publishedAt :: "nat option"
  views :: int
  likes :: "objectId list"
  likesCount :: int
  commentsCount :: int
  readTime :: int
  isDeleted :: bool
  rejectionReason :: string

record Comment =
  c_oid :: objectId
  c_blog :: objectId
  c_user :: objectId
  c_content :: string
  c_parentComment :: "objectId option"
  c_replies :: "objectId list"
  c_likes :: "objectId list"
  c_likesCount :: int
  c_isEdited :: bool
  c_isDeleted :: bool
  c_createdAt :: nat

record db =
  blogs :: "Blog list"
  comments :: "Comment list"

text \<open>The authenticated principal \<open>req.user\<close>: its id and its role.\<close>

datatype role = RoleUser | RoleAdmin

record reqUser =
  user_id :: objectId
  user_role :: role

text \<open>
  Every early \<open>return res.status(...)\<close> of a controller and every exception caught by its
  \<open>catch\<close> block is an error value:
  \<^item> \<open>ValidationFailed\<close>: 400 with the express-validator errors;
  \<^item> \<open>BlogNotFound\<close>: 404 "Blog not found" (the spec's PostNotFound);
  \<^item> \<open>CannotCommentUnpublished\<close>: 400 "Cannot comment on unpublished blog" (PostNotPublished);
  \<^item> \<open>CannotLikeUnpublished\<close>: 400 "Cannot like unpublished blog";
  \<^item> \<open>ParentCommentNotFound\<close>: 404 "Parent comment not found";
  \<^item> \<open>CommentNotFound\<close>: 404 "Comment not found";
  \<^item> \<open>NotAuthorized\<close>: 403 of the author checks;
  \<^item> \<open>AdminRequired\<close>: 403 of the isAdmin middleware;
  \<^item> \<open>BlogAlreadyPublished\<close>: 400 "Blog is already published" (AlreadyPublished);
  \<^item> \<open>ServerError\<close>: 500, an exception thrown by the store (schema validation, duplicate
    key, negative skip).
\<close>

datatype error =
    ValidationFailed
  | BlogNotFound
  | CannotCommentUnpublished
  | CannotLikeUnpublished
  | ParentCommentNotFound
  | CommentNotFound
  | NotAuthorized
  | AdminRequired
  | BlogAlreadyPublished
  | ServerError

section \<open>Strings and arrays of JavaScript\<close>

text \<open>
  A string is truthy when it is not empty.  White space is what \<open>\s\<close> and \<open>trim\<close> strip,
  among the code units below 256: tab, line feed, vertical tab, form feed, carriage
  return, space and no-break space.
\<close>

definition truthy :: "string option \<Rightarrow> bool" where
  "truthy v = (case v of None \<Rightarrow> False | Some s \<Rightarrow> s \<noteq> [])"

definition isSpace :: "char \<Rightarrow> bool" where
  "isSpace c = ((of_char c :: nat) \<in> {9, 10, 11, 12, 13, 32, 160})"

definition trim :: "string \<Rightarrow> string" where
  "trim s = rev (dropWhile isSpace (rev (dropWhile isSpace s)))"

definition toLowerCase :: "string \<Rightarrow> string" where
  "toLowerCase s =
     map (\<lambda>c. let n = (of_char c :: nat) in if 65 \<le> n \<and> n \<le> 90 then char_of (n + 32) else c) s"

definition slugChar :: "char \<Rightarrow> bool" where
  "slugChar c = (let n = (of_char c :: nat) in (97 \<le> n \<and> n \<le> 122) \<or> (48 \<le> n \<and> n \<le> 57))"

text \<open>\<open>replace(/[^a-z0-9]+/g, "-")\<close>: every maximal run of other characters becomes one dash.\<close>

fun dashRuns :: "bool \<Rightarrow> string \<Rightarrow> string" where
  "dashRuns inRun [] = []"
| "dashRuns inRun (c # cs) =
     (if slugChar c then c # dashRuns False cs
      else if inRun then dashRuns True cs
      else CHR ''-'' # dashRuns True cs)"

text \<open>\<open>replace(/^-+|-+$/g, "")\<close>: the dashes at both ends are removed.\<close>

definition stripDashes :: "string \<Rightarrow> string" where
  "stripDashes s =
     rev (dropWhile (\<lambda>c. c = CHR ''-'') (rev (dropWhile (\<lambda>c. c = CHR ''-'') s)))"

text \<open>The decimal digits of \<open>Date.now()\<close>.\<close>

fun digitsOf :: "nat \<Rightarrow> string" where
  "digitsOf n =
     (if n < 10 then [char_of (48 + n)]
      else digitsOf (n div 10) @ [char_of (48 + n mod 10)])"

declare digitsOf.simps [simp del]

definition slugOf :: "string \<Rightarrow> nat \<Rightarrow> string" where
  "slugOf t now = stripDashes (dashRuns False (toLowerCase t)) @ ''-'' @ digitsOf now"

text \<open>
  \<open>content.split(/\s+/).length\<close>: one more than the number of maximal runs of white space
  (the pieces before the first and after the last run count, empty or not).
\<close>

fun wsRuns :: "bool \<Rightarrow> string \<Rightarrow> nat" where
  "wsRuns inRun [] = 0"
| "wsRuns inRun (c # cs) =
     (if isSpace c then (if inRun then 0 else 1) + wsRuns True cs else wsRuns False cs)"

definition wordCount :: "string \<Rightarrow> nat" where
  "wordCount s = 1 + wsRuns False s"

definition readTimeOf :: "string \<Rightarrow> int" where
  "readTimeOf s = int ((wordCount s + 199) div 200)"

text \<open>\<open>xs.indexOf(x)\<close>: the first index of \<open>x\<close>, or -1.\<close>

fun indexOf :: "'a list \<Rightarrow> 'a \<Rightarrow> int" where
  "indexOf [] x = - 1"
| "indexOf (y # ys) x =
     (if y = x then 0
      else (let i = indexOf ys x in if i = - 1 then - 1 else i + 1))"

text \<open>
  \<open>xs.splice(i, 1)\<close>: the element at index \<open>i\<close> is removed; a negative index counts from
  the end, and an index past either end is clamped.
\<close>

definition splice1 :: "int \<Rightarrow> 'a list \<Rightarrow> 'a list" where
  "splice1 i xs =
     (let len = int (length xs);
          s = nat (if i < 0 then max (len + i) 0 else min i len)
      in take s xs @ drop (Suc s) xs)"

section \<open>The store\<close>

definition findBlogById :: "objectId \<Rightarrow> db \<Rightarrow> Blog option" where
  "findBlogById i d = find (\<lambda>b. oid b = i) (blogs d)"

definition findCommentById :: "objectId \<Rightarrow> db \<Rightarrow> Comment option" where
  "findCommentById i d = find (\<lambda>c. c_oid c = i) (comments d)"

definition updateBlogById :: "objectId \<Rightarrow> (Blog \<Rightarrow> Blog) \<Rightarrow> db \<Rightarrow> db" where
  "updateBlogById i f d = d\<lparr>blogs := map (\<lambda>b. if oid b = i then f b else b) (blogs d)\<rparr>"

definition updateCommentById :: "objectId \<Rightarrow> (Comment \<Rightarrow> Comment) \<Rightarrow> db \<Rightarrow> db" where
  "updateCommentById i f d =
     d\<lparr>comments := map (\<lambda>c. if c_oid c = i then f c else c) (comments d)\<rparr>"

text \<open>A new ObjectId differs from every id of the collection.\<close>

definition newBlogId :: "db \<Rightarrow> objectId" where
  "newBlogId d = Suc (fold max (map oid (blogs d)) 0)"

definition newCommentId :: "db \<Rightarrow> objectId" where
  "newCommentId d = Suc (fold max (map c_oid (comments d)) 0)"

subsection \<open>Saving a blog\<close>

text \<open>
  \<open>save()\<close> first runs the schema validators of Blog.js (title 5 to 200 characters,
  content at least 50, excerpt at most 300 when present, category one of the
  enumeration), then the two \<open>pre("save")\<close> hooks, then writes the document; the unique
  index on \<open>slug\<close> refuses a slug another document holds.  Any failure is an exception,
  which every controller turns into a 500.
\<close>

definition categories :: "string list" where
  "categories = [''Technology'', ''Lifestyle'', ''Travel'', ''Food'', ''Health'',
     ''Business'', ''Entertainment'', ''Education'', ''Sports'', ''Other'']"

definition validateBlog :: "Blog \<Rightarrow> bool" where
  "validateBlog b =
     (5 \<le> length (title b) \<and> length (title b) \<le> 200 \<and>
      50 \<le> length (content b) \<and>
      (case excerpt b of None \<Rightarrow> True | Some e \<Rightarrow> length e \<le> 300) \<and>
      category b \<in> set categories)"

text \<open>
  The hooks of Blog.js; the three flags are \<open>isModified("title")\<close>,
  \<open>isModified("content")\<close> and \<open>isModified("likes")\<close>.
\<close>

definition preSaveBlog :: "nat \<Rightarrow> bool \<Rightarrow> bool \<Rightarrow> bool \<Rightarrow> Blog \<Rightarrow> Blog" where
  "preSaveBlog now modTitle modContent modLikes b =
     (let b1 = (if modTitle then b\<lparr>slug := slugOf (title b) now\<rparr> else b);
          b2 = (if modContent then b1\<lparr>readTime := readTimeOf (content b1)\<rparr> else b1);
          b3 = (if modContent \<and> \<not> truthy (excerpt b2)
                then b2\<lparr>excerpt := Some (take 150 (content b2) @ ''...'')\<rparr> else b2)
      in if modLikes then b3\<lparr>likesCount := int (length (likes b3))\<rparr> else b3)"

definition slugTaken :: "objectId \<Rightarrow> string \<Rightarrow> db \<Rightarrow> bool" where
  "slugTaken i s d = (find (\<lambda>b. oid b \<noteq> i \<and> slug b = s) (blogs d) \<noteq> None)"

text \<open>
  Saving a loaded document: \<open>orig\<close> is the document as it was loaded, \<open>b\<close> the document
  after the controller's assignments.  A path is modified when its value differs from the
  loaded one (an assignment of an equal value does not mark it; \<open>push\<close> and \<open>splice\<close>
  always change the array).  The result is the saved document and the new database.
\<close>

definition saveBlog :: "nat \<Rightarrow> Blog \<Rightarrow> Blog \<Rightarrow> db \<Rightarrow> error + (Blog \<times> db)" where
  "saveBlog now orig b d =
     (if \<not> validateBlog b then Inl ServerError
      else
        let b' = preSaveBlog now (title b \<noteq> title orig) (content b \<noteq> content orig)
                   (likes b \<noteq> likes orig) b
        in if slug b' \<noteq> slug orig \<and> slugTaken (oid b') (slug b') d then Inl ServerError
           else Inr (b', updateBlogById (oid b') (\<lambda>_. b') d))"

section \<open>Blog controller\<close>

text \<open>
  The request body of createBlog and updateBlog; a field the client left out is
  \<open>undefined\<close>, here \<open>None\<close>.
\<close>

record blogBody =
  req_title :: "string option"
  req_content :: "string option"
  req_excerpt :: "string option"
  req_coverImage :: "string option"
  req_category :: "string option"
  req_tags :: "string list option"

definition orEmpty :: "string option \<Rightarrow> string" where
  "orEmpty v = (case v of None \<Rightarrow> [] | Some s \<Rightarrow> s)"

text \<open>
  The \<open>blogValidation\<close> chain of routes/blog.js, on the sanitised fields (title and content
  are trimmed by the chain before the controller reads them).
\<close>

definition blogValidation :: "string \<Rightarrow> string \<Rightarrow> string \<Rightarrow> bool" where
  "blogValidation t c cat =
     (5 \<le> length t \<and> length t \<le> 200 \<and> 50 \<le> length c \<and> cat \<noteq> [] \<and> cat \<in> set categories)"

text \<open>
  createBlog: POST /api/blogs.  \<open>Blog.create\<close> builds the document with the schema
  defaults, validates it, runs the hooks with title and content modified, and inserts it.
\<close>

definition createBlog :: "nat \<Rightarrow> reqUser \<Rightarrow> blogBody \<Rightarrow> db \<Rightarrow> (error + Blog) \<times> db" where
  "createBlog now u body d =
     (let t = trim (orEmpty (req_title body));
          c = trim (orEmpty (req_content body));
          cat = orEmpty (req_category body)
      in if \<not> blogValidation t c cat then (Inl ValidationFailed, d)
         else
           let blog = \<lparr>oid = newBlogId d, title = trim t, slug = [], content = c,
                 excerpt = req_excerpt body, coverImage = orEmpty (req_coverImage body),
                 author = user_id u, category = cat,
                 tags = map trim (case req_tags body of None \<Rightarrow> [] | Some ts \<Rightarrow> ts),
                 status = Pending, publishedAt = None, views = 0, likes = [],
                 likesCount = 0, commentsCount = 0, readTime = 0, isDeleted = False,
                 rejectionReason = []\<rparr>
           in if \<not> validateBlog blog then (Inl ServerError, d)
              else
                let blog' = preSaveBlog now True True False blog
                in if slugTaken (oid blog') (slug blog') d then (Inl ServerError, d)
                   else (Inr blog', d\<lparr>blogs := blogs d @ [blog']\<rparr>))"

text \<open>
  getBlogBySlug: GET /api/blogs/:slug, behind \<open>optionalAuth\<close>, so the viewer may be
  absent.  The query is \<open>{slug, isDeleted: false}\<close>.
\<close>

definition getBlogBySlug :: "nat \<Rightarrow> reqUser option \<Rightarrow> string \<Rightarrow> db \<Rightarrow> (error + Blog) \<times> db" where
  "getBlogBySlug now viewer s d =
     (case find (\<lambda>b. slug b = s \<and> \<not> isDeleted b) (blogs d) of
        None \<Rightarrow> (Inl BlogNotFound, d)
      | Some blog \<Rightarrow>
          if (case viewer of None \<Rightarrow> True | Some u \<Rightarrow> user_id u \<noteq> author blog) then
            (case saveBlog now blog (blog\<lparr>views := views blog + 1\<rparr>) d of
               Inl e \<Rightarrow> (Inl e, d)
             | Inr (saved, d') \<Rightarrow> (Inr saved, d'))
          else (Inr blog, d))"

text \<open>
  updateBlog: PUT /api/blogs/:id.  \<open>assignFields\<close> is the block of assignments of the
  controller ("Update fields", then the demotion of a published blog whose title or
  content is given); the schema trims the title and each tag on assignment.
\<close>

definition assignFields :: "blogBody \<Rightarrow> Blog \<Rightarrow> Blog" where
  "assignFields body blog =
     (let b1 = (case req_title body of
                  None \<Rightarrow> blog
                | Some t \<Rightarrow> if t \<noteq> [] then blog\<lparr>title := trim t\<rparr> else blog);
          b2 = (case req_content body of
                  None \<Rightarrow> b1
                | Some c \<Rightarrow> if c \<noteq> [] then b1\<lparr>content := c\<rparr> else b1);
          b3 = (case req_excerpt body of
                  None \<Rightarrow> b2
                | Some e \<Rightarrow> b2\<lparr>excerpt := Some e\<rparr>);
          b4 = (case req_coverImage body of
                  None \<Rightarrow> b3
                | Some ci \<Rightarrow> b3\<lparr>coverImage := ci\<rparr>);
          b5 = (case req_category body of
                  None \<Rightarrow> b4
                | Some cat \<Rightarrow> if cat \<noteq> [] then b4\<lparr>category := cat\<rparr> else b4);
          b6 = (case req_tags body of
                  None \<Rightarrow> b5
                | Some ts \<Rightarrow> b5\<lparr>tags := map trim ts\<rparr>)
      in if status b6 = Published \<and> (truthy (req_title body) \<or> truthy (req_content body))
         then b6\<lparr>status := Pending, publishedAt := None\<rparr> else b6)"

definition updateBlog :: "nat \<Rightarrow> reqUser \<Rightarrow> objectId \<Rightarrow> blogBody \<Rightarrow> db \<Rightarrow> (error + Blog) \<times> db" where
  "updateBlog now u i body d =
     (case findBlogById i d of
        None \<Rightarrow> (Inl BlogNotFound, d)
      | Some blog \<Rightarrow>
          if author blog \<noteq> user_id u then (Inl NotAuthorized, d)
          else
            (case saveBlog now blog (assignFields body blog) d of
               Inl e \<Rightarrow> (Inl e, d)
             | Inr (saved, d') \<Rightarrow> (Inr saved, d')))"

text \<open>deleteBlog: DELETE /api/blogs/:id, the author's soft delete.\<close>

definition deleteBlog :: "nat \<Rightarrow> reqUser \<Rightarrow> objectId \<Rightarrow> db \<Rightarrow> (error + unit) \<times> db" where
  "deleteBlog now u i d =
     (case findBlogById i d of
        None \<Rightarrow> (Inl BlogNotFound, d)
      | Some blog \<Rightarrow>
          if author blog \<noteq> user_id u then (Inl NotAuthorized, d)
          else
            (case saveBlog now blog (blog\<lparr>isDeleted := True\<rparr>) d of
               Inl e \<Rightarrow> (Inl e, d)
             | Inr (saved, d') \<Rightarrow> (Inr (), d')))"

text \<open>toggleLike: POST /api/blogs/:id/like.  The answer is \<open>(likesCount, isLiked)\<close>.\<close>

definition toggleLike :: "nat \<Rightarrow> reqUser \<Rightarrow> objectId \<Rightarrow> db \<Rightarrow> (error + (int \<times> bool)) \<times> db" where
  "toggleLike now u i d =
     (case findBlogById i d of
        None \<Rightarrow> (Inl BlogNotFound, d)
      | Some blog \<Rightarrow>
          if status blog \<noteq> Published then (Inl CannotLikeUnpublished, d)
          else
            let userId = user_id u;
                likeIndex = indexOf (likes blog) userId;
                blog' = (if likeIndex = - 1 then blog\<lparr>likes := likes blog @ [userId]\<rparr>
                         else blog\<lparr>likes := splice1 likeIndex (likes blog)\<rparr>)
            in (case saveBlog now blog blog' d of
                  Inl e \<Rightarrow> (Inl e, d)
                | Inr (saved, d') \<Rightarrow> (Inr (likesCount saved, likeIndex = - 1), d')))"

section \<open>Comment controller\<close>

subsection \<open>Saving a comment\<close>

text \<open>
  The validators of Comment.js (content 1 to 1000 characters; the schema trims it on
  assignment) and its hook, which recomputes \<open>likesCount\<close> when \<open>likes\<close> is modified.
\<close>

definition validateComment :: "Comment \<Rightarrow> bool" where
  "validateComment c = (1 \<le> length (c_content c) \<and> length (c_content c) \<le> 1000)"

definition preSaveComment :: "bool \<Rightarrow> Comment \<Rightarrow> Comment" where
  "preSaveComment modLikes c =
     (if modLikes then c\<lparr>c_likesCount := int (length (c_likes c))\<rparr> else c)"

definition saveComment :: "Comment \<Rightarrow> Comment \<Rightarrow> db \<Rightarrow> error + (Comment \<times> db)" where
  "saveComment orig c d =
     (if \<not> validateComment c then Inl ServerError
      else
        let c' = preSaveComment (c_likes c \<noteq> c_likes orig) c
        in Inr (c', updateCommentById (c_oid c') (\<lambda>_. c') d))"

text \<open>
  createComment: POST /api/comments/:blogId.  The \<open>commentValidation\<close> chain of
  routes/comment.js trims the content and wants 1 to 1000 characters.  The comment is
  inserted, then pushed to the parent's \<open>replies\<close>, then the blog is saved with its
  counter incremented; a failing save leaves the two earlier writes in place.
\<close>

definition createComment ::
  "nat \<Rightarrow> reqUser \<Rightarrow> objectId \<Rightarrow> string \<Rightarrow> objectId option \<Rightarrow> db \<Rightarrow> (error + Comment) \<times> db" where
  "createComment now u blogId rawContent parentComment d =
     (let content = trim rawContent
      in if \<not> (1 \<le> length content \<and> length content \<le> 1000) then (Inl ValidationFailed, d)
         else
           (case findBlogById blogId d of
              None \<Rightarrow> (Inl BlogNotFound, d)
            | Some blog \<Rightarrow>
                if status blog \<noteq> Published then (Inl CannotCommentUnpublished, d)
                else if (case parentComment of
                           None \<Rightarrow> False
                         | Some p \<Rightarrow> findCommentById p d = None)
                then (Inl ParentCommentNotFound, d)
                else
                  let comment = \<lparr>c_oid = newCommentId d, c_blog = blogId, c_user = user_id u,
                        c_content = trim content, c_parentComment = parentComment,
                        c_replies = [], c_likes = [], c_likesCount = 0, c_isEdited = False,
                        c_isDeleted = False, c_createdAt = now\<rparr>;
                      d1 = d\<lparr>comments := comments d @ [comment]\<rparr>;
                      d2 = (case parentComment of
                              None \<Rightarrow> d1
                            | Some p \<Rightarrow>
                                updateCommentById p
                                  (\<lambda>pc. pc\<lparr>c_replies := c_replies pc @ [c_oid comment]\<rparr>) d1)
                  in (case saveBlog now blog (blog\<lparr>commentsCount := commentsCount blog + 1\<rparr>) d2 of
                        Inl e \<Rightarrow> (Inl e, d2)
                      | Inr (saved, d3) \<Rightarrow> (Inr comment, d3))))"

text \<open>
  getComments: GET /api/comments/:blogId.  The sort string names a field and a direction
  (default \<open>-createdAt\<close>); the store refuses a negative skip, reads a limit of 0 as no
  limit and a negative limit as its absolute value.  \<open>populate\<close> with
  \<open>match: {isDeleted: false}\<close> replaces each id of \<open>replies\<close> by its document, in the
  order of the array, and drops the ids whose document is missing or deleted.  The answer
  modelled is the \<open>comments\<close> array, each top-level comment with its populated replies,
  and \<open>total\<close>.
\<close>

datatype commentField = FieldCreatedAt | FieldLikesCount

datatype commentSort = SortAsc commentField | SortDesc commentField

definition fieldKey :: "commentField \<Rightarrow> Comment \<Rightarrow> int" where
  "fieldKey f c = (case f of FieldCreatedAt \<Rightarrow> int (c_createdAt c) | FieldLikesCount \<Rightarrow> c_likesCount c)"

definition sortComments :: "commentSort \<Rightarrow> Comment list \<Rightarrow> Comment list" where
  "sortComments srt xs =
     (case srt of
        SortAsc f \<Rightarrow> sort_key (fieldKey f) xs
      | SortDesc f \<Rightarrow> sort_key (\<lambda>c. - fieldKey f c) xs)"

definition paginate :: "int \<Rightarrow> int \<Rightarrow> 'a list \<Rightarrow> error + 'a list" where
  "paginate skip lim xs =
     (if skip < 0 then Inl ServerError
      else
        let ys = drop (nat skip) xs
        in Inr (if lim = 0 then ys else take (nat \<bar>lim\<bar>) ys))"

definition populateReplies :: "db \<Rightarrow> Comment \<Rightarrow> Comment list" where
  "populateReplies d c =
     List.map_filter
       (\<lambda>i. case findCommentById i d of
               None \<Rightarrow> None
             | Some r \<Rightarrow> if c_isDeleted r then None else Some r)
       (c_replies c)"

definition getComments ::
  "objectId \<Rightarrow> int \<Rightarrow> int \<Rightarrow> commentSort \<Rightarrow> db \<Rightarrow> error + ((Comment \<times> Comment list) list \<times> nat)" where
  "getComments blogId pageNum limitNum srt d =
     (case findBlogById blogId d of
        None \<Rightarrow> Inl BlogNotFound
      | Some blog \<Rightarrow>
          let skip = (pageNum - 1) * limitNum;
              top = filter (\<lambda>c. c_blog c = blogId \<and> c_parentComment c = None \<and> \<not> c_isDeleted c)
                      (comments d)
          in (case paginate skip limitNum (sortComments srt top) of
                Inl e \<Rightarrow> Inl e
              | Inr page \<Rightarrow> Inr (map (\<lambda>c. (c, populateReplies d c)) page, length top)))"

text \<open>deleteComment: DELETE /api/comments/:commentId, the author's soft delete.\<close>

definition deleteComment :: "reqUser \<Rightarrow> objectId \<Rightarrow> db \<Rightarrow> (error + unit) \<times> db" where
  "deleteComment u commentId d =
     (case findCommentById commentId d of
        None \<Rightarrow> (Inl CommentNotFound, d)
      | Some comment \<Rightarrow>
          if c_user comment \<noteq> user_id u then (Inl NotAuthorized, d)
          else
            (case saveComment comment
                    (comment\<lparr>c_isDeleted := True, c_content := trim ''[deleted]''\<rparr>) d of
               Inl e \<Rightarrow> (Inl e, d)
             | Inr (saved, d') \<Rightarrow>
                 (Inr (),
                  updateBlogById (c_blog saved)
                    (\<lambda>b. b\<lparr>commentsCount := commentsCount b - 1\<rparr>) d')))"

text \<open>toggleCommentLike: POST /api/comments/:commentId/like.\<close>

definition toggleCommentLike :: "reqUser \<Rightarrow> objectId \<Rightarrow> db \<Rightarrow> (error + (int \<times> bool)) \<times> db" where
  "toggleCommentLike u commentId d =
     (case findCommentById commentId d of
        None \<Rightarrow> (Inl CommentNotFound, d)
      | Some comment \<Rightarrow>
          let userId = user_id u;
              likeIndex = indexOf (c_likes comment) userId;
              comment' = (if likeIndex = - 1
                          then comment\<lparr>c_likes := c_likes comment @ [userId]\<rparr>
                          else comment\<lparr>c_likes := splice1 likeIndex (c_likes comment)\<rparr>)
          in (case saveComment comment comment' d of
                Inl e \<Rightarrow> (Inl e, d)
              | Inr (saved, d') \<Rightarrow> (Inr (c_likesCount saved, likeIndex = - 1), d')))"

section \<open>Admin controller\<close>

text \<open>
  Every admin route runs the \<open>isAdmin\<close> middleware first; the operations below start
  with its role check.
\<close>

definition approveBlog :: "nat \<Rightarrow> reqUser \<Rightarrow> objectId \<Rightarrow> db \<Rightarrow> (error + Blog) \<times> db" where
  "approveBlog now u i d =
     (if user_role u \<noteq> RoleAdmin then (Inl AdminRequired, d)
      else
        (case findBlogById i d of
           None \<Rightarrow> (Inl BlogNotFound, d)
         | Some blog \<Rightarrow>
             if status blog = Published then (Inl BlogAlreadyPublished, d)
             else
               (case saveBlog now blog
                       (blog\<lparr>status := Published, publishedAt := Some now,
                              rejectionReason := []\<rparr>) d of
                  Inl e \<Rightarrow> (Inl e, d)
                | Inr (saved, d') \<Rightarrow> (Inr saved, d'))))"

text \<open>
  deleteBlogAdmin: DELETE /api/admin/blogs/:id.  After the blog is saved,
  \<open>Comment.updateMany({blog: id}, {isDeleted: true})\<close> marks every comment of the blog.
\<close>

definition deleteBlogAdmin :: "nat \<Rightarrow> reqUser \<Rightarrow> objectId \<Rightarrow> db \<Rightarrow> (error + unit) \<times> db" where
  "deleteBlogAdmin now u i d =
     (if user_role u \<noteq> RoleAdmin then (Inl AdminRequired, d)
      else
        (case findBlogById i d of
           None \<Rightarrow> (Inl BlogNotFound, d)
         | Some blog \<Rightarrow>
             (case saveBlog now blog (blog\<lparr>isDeleted := True\<rparr>) d of
                Inl e \<Rightarrow> (Inl e, d)
              | Inr (saved, d') \<Rightarrow>
                  (Inr (),
                   d'\<lparr>comments :=
                        map (\<lambda>c. if c_blog c = i then c\<lparr>c_isDeleted := True\<rparr> else c)
                          (comments d')\<rparr>))))"

text \<open>deleteCommentAdmin: DELETE /api/admin/comments/:id.\<close>

definition deleteCommentAdmin :: "reqUser \<Rightarrow> objectId \<Rightarrow> db \<Rightarrow> (error + unit) \<times> db" where
  "deleteCommentAdmin u i d =
     (if user_role u \<noteq> RoleAdmin then (Inl AdminRequired, d)
      else
        (case findCommentById i d of
           None \<Rightarrow> (Inl CommentNotFound, d)
         | Some comment \<Rightarrow>
             (case saveComment comment
                     (comment\<lparr>c_isDeleted := True, c_content := trim ''[deleted by admin]''\<rparr>) d of
                Inl e \<Rightarrow> (Inl e, d)
              | Inr (saved, d') \<Rightarrow>
                  (Inr (),
                   updateBlogById (c_blog saved)
                     (\<lambda>b. b\<lparr>commentsCount := commentsCount b - 1\<rparr>) d'))))"

section \<open>Runs of requests and the properties stated about them\<close>

text \<open>
  The requests that change the store, one constructor per modelled controller, with the
  arguments the controller reads.  A run applies them one after the other; a request that
  fails leaves whatever it had written before failing.
\<close>

datatype request =
    CreateBlog nat reqUser blogBody
  | GetBlogBySlug nat "reqUser option" string
  | UpdateBlog nat reqUser objectId blogBody
  | DeleteBlog nat reqUser objectId
  | ToggleLike nat reqUser objectId
  | CreateComment nat reqUser objectId string "objectId option"
  | DeleteComment reqUser objectId
  | ToggleCommentLike reqUser objectId
  | ApproveBlog nat reqUser objectId
  | DeleteBlogAdmin nat reqUser objectId
  | DeleteCommentAdmin reqUser objectId

fun handle :: "request \<Rightarrow> db \<Rightarrow> db" where
  "handle (CreateBlog now u body) d = snd (createBlog now u body d)"
| "handle (GetBlogBySlug now v s) d = snd (getBlogBySlug now v s d)"
| "handle (UpdateBlog now u i body) d = snd (updateBlog now u i body d)"
| "handle (DeleteBlog now u i) d = snd (deleteBlog now u i d)"
| "handle (ToggleLike now u i) d = snd (toggleLike now u i d)"
| "handle (CreateComment now u i c p) d = snd (createComment now u i c p d)"
| "handle (DeleteComment u i) d = snd (deleteComment u i d)"
| "handle (ToggleCommentLike u i) d = snd (toggleCommentLike u i d)"
| "handle (ApproveBlog now u i) d = snd (approveBlog now u i d)"
| "handle (DeleteBlogAdmin now u i) d = snd (deleteBlogAdmin now u i d)"
| "handle (DeleteCommentAdmin u i) d = snd (deleteCommentAdmin u i d)"

definition serve :: "request list \<Rightarrow> db \<Rightarrow> db" where
  "serve rs d = fold handle rs d"

definition emptyDb :: db where
  "emptyDb = \<lparr>blogs = [], comments = []\<rparr>"

text \<open>
  The cached count agrees with the like set: the array holds no principal twice and the
  count is its length.
\<close>

definition blogLikesOk :: "Blog \<Rightarrow> bool" where
  "blogLikesOk b = (distinct (likes b) \<and> likesCount b = int (length (likes b)))"

definition commentLikesOk :: "Comment \<Rightarrow> bool" where
  "commentLikesOk c = (distinct (c_likes c) \<and> c_likesCount c = int (length (c_likes c)))"

definition likesCached :: "db \<Rightarrow> bool" where
  "likesCached d = (list_all blogLikesOk (blogs d) \<and> list_all commentLikesOk (comments d))"

subsection \<open>A small database for the examples\<close>

text \<open>
  Alice writes, Bob reads and Carol moderates.  \<open>post1\<close> is a published post of Alice
  that passes the schema validators.
\<close>

definition alice :: reqUser where
  "alice = \<lparr>user_id = 7, user_role = RoleUser\<rparr>"

definition bob :: reqUser where
  "bob = \<lparr>user_id = 8, user_role = RoleUser\<rparr>"

definition carol :: reqUser where
  "carol = \<lparr>user_id = 9, user_role = RoleAdmin\<rparr>"

definition post1 :: Blog where
  "post1 = \<lparr>oid = 1, title = ''First post'', slug = ''first-post-1000'',
     content = replicate 60 (CHR ''a''), excerpt = Some ''intro'', coverImage = [],
     author = 7, category = ''Other'', tags = [], status = Published,
     publishedAt = Some 1000, views = 0, likes = [], likesCount = 0, commentsCount = 0,
     readTime = 1, isDeleted = False, rejectionReason = []\<rparr>"

definition db1 :: db where
  "db1 = \<lparr>blogs = [post1], comments = []\<rparr>"

definition body1 :: blogBody where
  "body1 = \<lparr>req_title = Some ''First post'', req_content = Some (replicate 200 (CHR ''a'')),
     req_excerpt = None, req_coverImage = None, req_category = Some ''Other'',
     req_tags = None\<rparr>"

text \<open>
  \<open>db2\<close>: the post with a comment of Bob and Carol's reply to it; \<open>run1\<close>: a run from
  the empty database.
\<close>

definition comment1 :: Comment where
  "comment1 = \<lparr>c_oid = 1, c_blog = 1, c_user = 8, c_content = ''hi'',
     c_parentComment = None, c_replies = [2], c_likes = [], c_likesCount = 0,
     c_isEdited = False, c_isDeleted = False, c_createdAt = 2003\<rparr>"

definition comment2 :: Comment where
  "comment2 = \<lparr>c_oid = 2, c_blog = 1, c_user = 9, c_content = ''welcome'',
     c_parentComment = Some 1, c_replies = [], c_likes = [], c_likesCount = 0,
     c_isEdited = False, c_isDeleted = False, c_createdAt = 2004\<rparr>"

definition db2 :: db where
  "db2 = \<lparr>blogs = [post1\<lparr>commentsCount := 2\<rparr>], comments = [comment1, comment2]\<rparr>"

definition run1 :: "request list" where
  "run1 = [CreateBlog 1000 alice body1, ApproveBlog 1500 carol 1, ToggleLike 2000 bob 1,
     ToggleLike 2001 alice 1, ToggleLike 2002 bob 1, CreateComment 2003 bob 1 '' hi '' None,
     ToggleCommentLike carol 1, CreateComment 2004 alice 1 ''re'' (Some 1)]"

text \<open>\<open>db1\<close> with the post still pending, and with the post rejected.\<close>

definition dbPending :: db where
  "dbPending = \<lparr>blogs = [post1\<lparr>status := Pending, publishedAt := None\<rparr>], comments = []\<rparr>"

definition dbRejected :: db where
  "dbRejected =
     \<lparr>blogs = [post1\<lparr>status := Rejected, publishedAt := None, rejectionReason := ''too short''\<rparr>],
      comments = []\<rparr>"

text \<open>Three edits: of the title, of the tags only, of the content with an excerpt.\<close>

definition bodyNone :: blogBody where
  "bodyNone = \<lparr>req_title = None, req_content = None, req_excerpt = None,
     req_coverImage = None, req_category = None, req_tags = None\<rparr>"

definition bodyTitle :: blogBody where
  "bodyTitle = bodyNone\<lparr>req_title := Some ''Second thoughts''\<rparr>"

definition bodyTags :: blogBody where
  "bodyTags = bodyNone\<lparr>req_tags := Some [''news'']\<rparr>"

definition bodyExcerpt :: blogBody where
  "bodyExcerpt = bodyNone\<lparr>req_content := Some (replicate 400 (CHR ''b'')),
     req_excerpt := Some ''my summary''\<rparr>"

text \<open>
  The ids a getComments answer shows (top-level comments and their populated replies),
  and the number of comments of a blog that are not deleted, which \<open>commentsCount\<close> is
  meant to cache.
\<close>

definition listedIds :: "(Comment \<times> Comment list) list \<Rightarrow> objectId list" where
  "listedIds out = concat (map (\<lambda>(c, rs). c_oid c # map c_oid rs) out)"

definition liveCount :: "objectId \<Rightarrow> db \<Rightarrow> nat" where
  "liveCount blogId d =
     length (filter (\<lambda>c. c_blog c = blogId \<and> \<not> c_isDeleted c) (comments d))"

text \<open>
  \<open>dbDeleted\<close>: the published post, soft-deleted.  \<open>dbTomb\<close>: \<open>db2\<close> after Carol has
  deleted her reply.
\<close>

definition dbDeleted :: db where
  "dbDeleted = \<lparr>blogs = [post1\<lparr>isDeleted := True\<rparr>], comments = []\<rparr>"

definition dbTomb :: db where
  "dbTomb = \<lparr>blogs = [post1\<lparr>commentsCount := 1\<rparr>],
     comments = [comment1, comment2\<lparr>c_isDeleted := True, c_content := ''[deleted]''\<rparr>]\<rparr>"

section \<open>Basic facts\<close>

lemma indexOf_ge: "indexOf xs x = - 1 \<or> 0 \<le> indexOf xs x"
  by (induction xs) (auto simp: Let_def)

lemma indexOf_absent: "(indexOf xs x = - 1) = (x \<notin> set xs)"
proof (induction xs)
  case Nil
  show ?case by simp
next
  case (Cons y ys)
  have "0 \<le> indexOf ys x \<or> indexOf ys x = - 1"
    using indexOf_ge [of ys x] by blast
  with Cons show ?case by (auto simp: Let_def)
qed

lemma splice1_indexOf: "x \<in> set xs \<Longrightarrow> splice1 (indexOf xs x) xs = remove1 x xs"
proof (induction xs)
  case Nil
  then show ?case by simp
next
  case (Cons y ys)
  show ?case
  proof (cases "y = x")
    case True
    then show ?thesis by (simp add: splice1_def)
  next
    case False
    with Cons.prems have mem: "x \<in> set ys" by simp
    then have ne: "indexOf ys x \<noteq> - 1" by (simp add: indexOf_absent)
    with indexOf_ge [of ys x] have ge: "0 \<le> indexOf ys x" by blast
    from Cons.IH [OF mem] ge have "take (nat (min (indexOf ys x) (int (length ys)))) ys
        @ drop (Suc (nat (min (indexOf ys x) (int (length ys))))) ys = remove1 x ys"
      by (simp add: splice1_def Let_def)
    moreover have "nat (min (indexOf ys x + 1) (1 + int (length ys)))
        = Suc (nat (min (indexOf ys x) (int (length ys))))"
      using ge by (auto simp: min_def nat_add_distrib)
    ultimately show ?thesis
      using False ne ge by (simp add: splice1_def Let_def)
  qed
qed

lemma find_map_upd:
  assumes "\<And>x. k x = j \<Longrightarrow> k (f x) = j"
  shows "find (\<lambda>x. k x = i) (map (\<lambda>x. if k x = j then f x else x) xs)
       = map_option (\<lambda>x. if k x = j then f x else x) (find (\<lambda>x. k x = i) xs)"
  using assms by (induction xs) auto

lemma findBlogById_update:
  "(\<And>b. oid b = j \<Longrightarrow> oid (f b) = j) \<Longrightarrow>
   findBlogById i (updateBlogById j f d)
     = map_option (\<lambda>b. if oid b = j then f b else b) (findBlogById i d)"
  unfolding findBlogById_def updateBlogById_def
  using find_map_upd [of oid j f i "blogs d"] by simp

lemma findCommentById_update:
  "(\<And>c. c_oid c = j \<Longrightarrow> c_oid (f c) = j) \<Longrightarrow>
   findCommentById i (updateCommentById j f d)
     = map_option (\<lambda>c. if c_oid c = j then f c else c) (findCommentById i d)"
  unfolding findCommentById_def updateCommentById_def
  using find_map_upd [of c_oid j f i "comments d"] by simp

lemma findBlogById_oid: "findBlogById i d = Some b \<Longrightarrow> oid b = i"
  by (auto simp: findBlogById_def find_Some_iff)

lemma findBlogById_mem: "findBlogById i d = Some b \<Longrightarrow> b \<in> set (blogs d)"
  by (auto simp: findBlogById_def find_Some_iff)

lemma findCommentById_oid: "findCommentById i d = Some c \<Longrightarrow> c_oid c = i"
  by (auto simp: findCommentById_def find_Some_iff)

lemma findCommentById_mem: "findCommentById i d = Some c \<Longrightarrow> c \<in> set (comments d)"
  by (auto simp: findCommentById_def find_Some_iff)

lemma preSaveBlog_fields [simp]:
  "oid (preSaveBlog now mt mc ml b) = oid b"
  "title (preSaveBlog now mt mc ml b) = title b"
  "content (preSaveBlog now mt mc ml b) = content b"
  "coverImage (preSaveBlog now mt mc ml b) = coverImage b"
  "author (preSaveBlog now mt mc ml b) = author b"
  "category (preSaveBlog now mt mc ml b) = category b"
  "tags (preSaveBlog now mt mc ml b) = tags b"
  "status (preSaveBlog now mt mc ml b) = status b"
  "publishedAt (preSaveBlog now mt mc ml b) = publishedAt b"
  "views (preSaveBlog now mt mc ml b) = views b"
  "likes (preSaveBlog now mt mc ml b) = likes b"
  "commentsCount (preSaveBlog now mt mc ml b) = commentsCount b"
  "isDeleted (preSaveBlog now mt mc ml b) = isDeleted b"
  "rejectionReason (preSaveBlog now mt mc ml b) = rejectionReason b"
  by (simp_all add: preSaveBlog_def Let_def)

lemma preSaveBlog_likesCount:
  "likesCount (preSaveBlog now mt mc ml b) = (if ml then int (length (likes b)) else likesCount b)"
  by (simp add: preSaveBlog_def Let_def)

lemma preSaveBlog_excerpt:
  "excerpt (preSaveBlog now mt mc ml b)
     = (if mc \<and> \<not> truthy (excerpt b) then Some (take 150 (content b) @ ''...'') else excerpt b)"
  by (simp add: preSaveBlog_def Let_def)

lemma preSaveBlog_slug:
  "slug (preSaveBlog now mt mc ml b) = (if mt then slugOf (title b) now else slug b)"
  by (simp add: preSaveBlog_def Let_def)

lemma preSaveBlog_unmodified [simp]: "preSaveBlog now False False False b = b"
  by (simp add: preSaveBlog_def)

lemma saveBlog_Inr:
  "saveBlog now orig b d = Inr (b', d') \<Longrightarrow>
     validateBlog b \<and>
     b' = preSaveBlog now (title b \<noteq> title orig) (content b \<noteq> content orig) (likes b \<noteq> likes orig) b \<and>
     d' = updateBlogById (oid b) (\<lambda>_. b') d"
  by (auto simp: saveBlog_def Let_def split: if_splits)

lemma saveBlog_same_title:
  "validateBlog b \<Longrightarrow> title b = title orig \<Longrightarrow> slug b = slug orig \<Longrightarrow>
   saveBlog now orig b d =
     (let b' = preSaveBlog now False (content b \<noteq> content orig) (likes b \<noteq> likes orig) b
      in Inr (b', updateBlogById (oid b) (\<lambda>_. b') d))"
  by (simp add: saveBlog_def Let_def preSaveBlog_slug)

lemma blogs_updateCommentById [simp]: "blogs (updateCommentById i f d) = blogs d"
  by (simp add: updateCommentById_def)

lemma comments_updateBlogById [simp]: "comments (updateBlogById i f d) = comments d"
  by (simp add: updateBlogById_def)

lemma findBlogById_updateCommentById [simp]:
  "findBlogById i (updateCommentById j f d) = findBlogById i d"
  by (simp add: findBlogById_def)

lemma findCommentById_updateBlogById [simp]:
  "findCommentById i (updateBlogById j f d) = findCommentById i d"
  by (simp add: findCommentById_def)

lemma saveComment_eq:
  "saveComment orig c d =
     (if validateComment c
      then Inr (preSaveComment (c_likes c \<noteq> c_likes orig) c,
                updateCommentById (c_oid c) (\<lambda>_. preSaveComment (c_likes c \<noteq> c_likes orig) c) d)
      else Inl ServerError)"
  by (simp add: saveComment_def Let_def preSaveComment_def)

lemma toggled_likes_distinct:
  "distinct xs \<Longrightarrow>
   distinct (if indexOf xs x = - 1 then xs @ [x] else splice1 (indexOf xs x) xs)"
  by (simp add: indexOf_absent splice1_indexOf)

lemma toggled_likes_changed:
  "(if indexOf xs x = - 1 then xs @ [x] else splice1 (indexOf xs x) xs) \<noteq> xs"
proof (cases "x \<in> set xs")
  case True
  then have "0 < length xs" by (rule length_pos_if_in_set)
  moreover from True have "length (remove1 x xs) = length xs - 1"
    by (simp add: length_remove1)
  ultimately have "length (remove1 x xs) \<noteq> length xs" by arith
  then have "remove1 x xs \<noteq> xs" by auto
  with True show ?thesis by (simp add: indexOf_absent splice1_indexOf)
next
  case False
  then show ?thesis by (simp add: indexOf_absent)
qed

lemma likesCached_blog: "likesCached d \<Longrightarrow> findBlogById i d = Some b \<Longrightarrow> blogLikesOk b"
  by (auto simp: likesCached_def list_all_iff dest: findBlogById_mem)

lemma likesCached_comment:
  "likesCached d \<Longrightarrow> findCommentById i d = Some c \<Longrightarrow> commentLikesOk c"
  by (auto simp: likesCached_def list_all_iff dest: findCommentById_mem)

lemma likesCached_updateBlogById:
  "likesCached d \<Longrightarrow> (\<And>b. blogLikesOk b \<Longrightarrow> blogLikesOk (f b)) \<Longrightarrow>
   likesCached (updateBlogById i f d)"
  by (auto simp: likesCached_def updateBlogById_def list_all_iff)

lemma likesCached_updateCommentById:
  "likesCached d \<Longrightarrow> (\<And>c. commentLikesOk c \<Longrightarrow> commentLikesOk (f c)) \<Longrightarrow>
   likesCached (updateCommentById i f d)"
  by (auto simp: likesCached_def updateCommentById_def list_all_iff)

lemma likesCached_saveBlog:
  assumes "likesCached d" and "saveBlog now orig b d = Inr (b', d')"
    and "distinct (likes b)"
    and "likes b = likes orig \<Longrightarrow> likesCount b = int (length (likes b))"
  shows "likesCached d'"
proof -
  from assms(2) have b': "b' = preSaveBlog now (title b \<noteq> title orig)
      (content b \<noteq> content orig) (likes b \<noteq> likes orig) b"
    and d': "d' = updateBlogById (oid b) (\<lambda>_. b') d"
    by (auto dest: saveBlog_Inr)
  have "blogLikesOk b'"
    using assms(3,4) by (auto simp: b' blogLikesOk_def preSaveBlog_likesCount)
  then show ?thesis
    unfolding d' using assms(1) by (intro likesCached_updateBlogById) auto
qed

lemma likesCached_saveComment:
  assumes "likesCached d" and "saveComment orig c d = Inr (c', d')"
    and "distinct (c_likes c)"
    and "c_likes c = c_likes orig \<Longrightarrow> c_likesCount c = int (length (c_likes c))"
  shows "likesCached d'"
proof -
  from assms(2) have c': "c' = preSaveComment (c_likes c \<noteq> c_likes orig) c"
    and d': "d' = updateCommentById (c_oid c) (\<lambda>_. c') d"
    by (auto simp: saveComment_eq split: if_splits)
  have "commentLikesOk c'"
    using assms(3,4) by (auto simp: c' commentLikesOk_def preSaveComment_def)
  then show ?thesis
    unfolding d' using assms(1) by (intro likesCached_updateCommentById) auto
qed

lemma likesCached_toggleLike: "likesCached d \<Longrightarrow> likesCached (snd (toggleLike now u i d))"
proof -
  assume inv: "likesCached d"
  show ?thesis
  proof (cases "findBlogById i d")
    case None
    with inv show ?thesis by (simp add: toggleLike_def)
  next
    case (Some blog)
    with inv have ok: "blogLikesOk blog" by (rule likesCached_blog)
    define ls where "ls = (if indexOf (likes blog) (user_id u) = - 1 then likes blog @ [user_id u]
        else splice1 (indexOf (likes blog) (user_id u)) (likes blog))"
    have dist: "distinct ls" and chg: "ls \<noteq> likes blog"
      using ok toggled_likes_distinct [of "likes blog" "user_id u"]
        toggled_likes_changed [of "likes blog" "user_id u"]
      by (simp_all add: ls_def blogLikesOk_def)
    have eq: "(if indexOf (likes blog) (user_id u) = - 1
         then blog\<lparr>likes := likes blog @ [user_id u]\<rparr>
         else blog\<lparr>likes := splice1 (indexOf (likes blog) (user_id u)) (likes blog)\<rparr>)
        = blog\<lparr>likes := ls\<rparr>"
      by (simp add: ls_def)
    show ?thesis
    proof (cases "status blog = Published")
      case False
      with Some inv show ?thesis by (simp add: toggleLike_def)
    next
      case True
      show ?thesis
      proof (cases "saveBlog now blog (blog\<lparr>likes := ls\<rparr>) d")
        case (Inl e)
        with Some True inv eq show ?thesis by (simp add: toggleLike_def Let_def)
      next
        case (Inr r)
        obtain b' d' where r: "r = (b', d')" by (cases r)
        have "likesCached d'"
          using likesCached_saveBlog [OF inv Inr [unfolded r]] dist chg by simp
        with Some True Inr r eq show ?thesis by (simp add: toggleLike_def Let_def)
      qed
    qed
  qed
qed

lemma likesCached_save_same:
  assumes "saveBlog now blog b d = Inr (b', d')" and "likesCached d" and "blogLikesOk blog"
    and "likes b = likes blog" and "likesCount b = likesCount blog"
  shows "likesCached d'"
  using likesCached_saveBlog [OF assms(2) assms(1)] assms(3-5)
  by (simp add: blogLikesOk_def)

lemma likesCached_deleteBlog: "likesCached d \<Longrightarrow> likesCached (snd (deleteBlog now u i d))"
  by (auto simp: deleteBlog_def split: option.splits sum.splits
      dest: likesCached_blog elim!: likesCached_save_same)

lemma likesCached_approveBlog: "likesCached d \<Longrightarrow> likesCached (snd (approveBlog now u i d))"
  by (auto simp: approveBlog_def split: option.splits sum.splits
      dest: likesCached_blog elim!: likesCached_save_same)

lemma likesCached_getBlogBySlug:
  "likesCached d \<Longrightarrow> likesCached (snd (getBlogBySlug now v s d))"
proof -
  assume inv: "likesCached d"
  have ok: "blogLikesOk blog"
    if "find (\<lambda>b. slug b = s \<and> \<not> isDeleted b) (blogs d) = Some blog" for blog
    using that inv by (auto simp: likesCached_def list_all_iff find_Some_iff)
  show ?thesis
    using inv
    by (auto simp: getBlogBySlug_def split: option.splits sum.splits
        dest: ok elim!: likesCached_save_same)
qed

lemma assignFields_fields [simp]:
  "oid (assignFields body b) = oid b"
  "slug (assignFields body b) = slug b"
  "author (assignFields body b) = author b"
  "views (assignFields body b) = views b"
  "likes (assignFields body b) = likes b"
  "likesCount (assignFields body b) = likesCount b"
  "commentsCount (assignFields body b) = commentsCount b"
  "readTime (assignFields body b) = readTime b"
  "isDeleted (assignFields body b) = isDeleted b"
  "rejectionReason (assignFields body b) = rejectionReason b"
  by (simp_all add: assignFields_def Let_def split: option.splits)

lemma likesCached_updateBlog:
  "likesCached d \<Longrightarrow> likesCached (snd (updateBlog now u i body d))"
  by (auto simp: updateBlog_def split: option.splits sum.splits
      dest: likesCached_blog elim!: likesCached_save_same)

lemma likesCached_deleteComment:
  "likesCached d \<Longrightarrow> likesCached (snd (deleteComment u i d))"
proof -
  assume inv: "likesCached d"
  have dec: "blogLikesOk (b\<lparr>commentsCount := commentsCount b - 1\<rparr>)" if "blogLikesOk b" for b
    using that by (simp add: blogLikesOk_def)
  show ?thesis
    using inv
    by (auto simp: deleteComment_def split: option.splits sum.splits
        dest: likesCached_comment
        intro!: likesCached_updateBlogById dec
        elim!: likesCached_saveComment [rotated] simp: commentLikesOk_def)
qed

lemma likesCached_deleteCommentAdmin:
  "likesCached d \<Longrightarrow> likesCached (snd (deleteCommentAdmin u i d))"
proof -
  assume inv: "likesCached d"
  have dec: "blogLikesOk (b\<lparr>commentsCount := commentsCount b - 1\<rparr>)" if "blogLikesOk b" for b
    using that by (simp add: blogLikesOk_def)
  show ?thesis
    using inv
    by (auto simp: deleteCommentAdmin_def split: option.splits sum.splits
        dest: likesCached_comment
        intro!: likesCached_updateBlogById dec
        elim!: likesCached_saveComment [rotated] simp: commentLikesOk_def)
qed

lemma likesCached_toggleCommentLike:
  "likesCached d \<Longrightarrow> likesCached (snd (toggleCommentLike u i d))"
proof -
  assume inv: "likesCached d"
  show ?thesis
  proof (cases "findCommentById i d")
    case None
    with inv show ?thesis by (simp add: toggleCommentLike_def)
  next
    case (Some c)
    with inv have ok: "commentLikesOk c" by (rule likesCached_comment)
    define ls where "ls = (if indexOf (c_likes c) (user_id u) = - 1 then c_likes c @ [user_id u]
        else splice1 (indexOf (c_likes c) (user_id u)) (c_likes c))"
    have dist: "distinct ls" and chg: "ls \<noteq> c_likes c"
      using ok toggled_likes_distinct [of "c_likes c" "user_id u"]
        toggled_likes_changed [of "c_likes c" "user_id u"]
      by (simp_all add: ls_def commentLikesOk_def)
    have eq: "(if indexOf (c_likes c) (user_id u) = - 1
         then c\<lparr>c_likes := c_likes c @ [user_id u]\<rparr>
         else c\<lparr>c_likes := splice1 (indexOf (c_likes c) (user_id u)) (c_likes c)\<rparr>)
        = c\<lparr>c_likes := ls\<rparr>"
      by (simp add: ls_def)
    show ?thesis
    proof (cases "saveComment c (c\<lparr>c_likes := ls\<rparr>) d")
      case (Inl e)
      with Some inv eq show ?thesis by (simp add: toggleCommentLike_def Let_def)
    next
      case (Inr r)
      obtain c' d' where r: "r = (c', d')" by (cases r)
      have "likesCached d'"
        using likesCached_saveComment [OF inv Inr [unfolded r]] dist chg by simp
      with Some Inr r eq show ?thesis by (simp add: toggleCommentLike_def Let_def)
    qed
  qed
qed

lemma likesCached_deleteBlogAdmin:
  "likesCached d \<Longrightarrow> likesCached (snd (deleteBlogAdmin now u i d))"
proof -
  assume inv: "likesCached d"
  have mark: "likesCached (d'\<lparr>comments :=
      map (\<lambda>c. if c_blog c = i then c\<lparr>c_isDeleted := True\<rparr> else c) (comments d')\<rparr>)"
    if "likesCached d'" for d'
    using that by (auto simp: likesCached_def list_all_iff commentLikesOk_def)
  show ?thesis
    using inv
    by (auto simp: deleteBlogAdmin_def split: option.splits sum.splits
        dest: likesCached_blog intro!: mark elim!: likesCached_save_same)
qed

lemma likesCached_createBlog:
  "likesCached d \<Longrightarrow> likesCached (snd (createBlog now u body d))"
  by (auto simp: createBlog_def Let_def likesCached_def blogLikesOk_def preSaveBlog_likesCount)

lemma likesCached_createComment:
  "likesCached d \<Longrightarrow> likesCached (snd (createComment now u i c p d))"
proof -
  assume inv: "likesCached d"
  have app: "likesCached (d\<lparr>comments := comments d @ [x]\<rparr>)" if "commentLikesOk x" for x
    using that inv by (simp add: likesCached_def)
  have fin: "likesCached (snd (case saveBlog now blog (blog\<lparr>commentsCount := commentsCount blog + 1\<rparr>) dd of
        Inl e \<Rightarrow> (Inl e, dd') | Inr (saved, d3) \<Rightarrow> (Inr y, d3)))"
    if "likesCached dd" "likesCached dd'" "findBlogById i d = Some blog" for blog dd dd' y
    using that(1,2) likesCached_blog [OF inv that(3)]
    by (auto split: sum.splits elim!: likesCached_save_same)
  show ?thesis
  proof (cases "findBlogById i d")
    case None
    with inv show ?thesis by (simp add: createComment_def Let_def)
  next
    case (Some blog)
    show ?thesis
      using inv
      by (auto simp: createComment_def Let_def Some commentLikesOk_def
          intro!: fin [OF _ _ Some] likesCached_updateCommentById app
          split: option.splits)
  qed
qed

lemma likesCached_handle: "likesCached d \<Longrightarrow> likesCached (handle r d)"
  by (cases r)
    (simp_all add: likesCached_createBlog likesCached_getBlogBySlug likesCached_updateBlog
      likesCached_deleteBlog likesCached_toggleLike likesCached_createComment
      likesCached_deleteComment likesCached_toggleCommentLike likesCached_approveBlog
      likesCached_deleteBlogAdmin likesCached_deleteCommentAdmin)

lemma likesCached_serve: "likesCached d \<Longrightarrow> likesCached (serve rs d)"
  unfolding serve_def by (induction rs arbitrary: d) (simp_all add: likesCached_handle)

lemma likesCached_emptyDb: "likesCached emptyDb"
  by (simp add: likesCached_def emptyDb_def)

lemma findBlogById_saved:
  "findBlogById i d = Some blog \<Longrightarrow> oid b = i \<Longrightarrow>
   findBlogById i (updateBlogById i (\<lambda>_. b) d) = Some b"
  by (simp add: findBlogById_update findBlogById_oid)

lemma findCommentById_saved:
  "findCommentById i d = Some c \<Longrightarrow> c_oid x = i \<Longrightarrow>
   findCommentById i (updateCommentById i (\<lambda>_. x) d) = Some x"
  by (simp add: findCommentById_update findCommentById_oid)

lemma toggleLike_Some:
  "findBlogById i d = Some blog \<Longrightarrow>
   toggleLike now u i d =
     (if status blog \<noteq> Published then (Inl CannotLikeUnpublished, d)
      else
        (case saveBlog now blog
                (blog\<lparr>likes := (if indexOf (likes blog) (user_id u) = - 1
                                  then likes blog @ [user_id u]
                                  else splice1 (indexOf (likes blog) (user_id u)) (likes blog))\<rparr>) d of
           Inl e \<Rightarrow> (Inl e, d)
         | Inr (saved, d') \<Rightarrow>
             (Inr (likesCount saved, indexOf (likes blog) (user_id u) = - 1), d')))"
  by (simp add: toggleLike_def Let_def)

lemma toggleLike_Inr:
  assumes "toggleLike now u i d = (Inr r, d')"
  shows "\<exists>b'. findBlogById i d' = Some b' \<and> likesCount b' = int (length (likes b'))
           \<and> fst r = likesCount b'"
proof (cases "findBlogById i d")
  case None
  with assms show ?thesis by (simp add: toggleLike_def)
next
  case (Some blog)
  define ls where "ls = (if indexOf (likes blog) (user_id u) = - 1 then likes blog @ [user_id u]
      else splice1 (indexOf (likes blog) (user_id u)) (likes blog))"
  have chg: "ls \<noteq> likes blog"
    using toggled_likes_changed [of "likes blog" "user_id u"] by (simp add: ls_def)
  note tl = toggleLike_Some [OF Some, of now u, folded ls_def]
  show ?thesis
  proof (cases "status blog = Published")
    case False
    with assms tl show ?thesis by simp
  next
    case True
    show ?thesis
    proof (cases "saveBlog now blog (blog\<lparr>likes := ls\<rparr>) d")
      case (Inl e)
      with assms tl True show ?thesis by simp
    next
      case (Inr p)
      obtain saved d2 where p: "p = (saved, d2)" by (cases p)
      from assms tl True Inr p have d2: "d2 = d'" and r: "fst r = likesCount saved"
        by auto
      from saveBlog_Inr [OF Inr [unfolded p]] chg
      have saved: "saved = preSaveBlog now False False True (blog\<lparr>likes := ls\<rparr>)"
        and d': "d2 = updateBlogById (oid blog) (\<lambda>_. saved) d"
        by simp_all
      have os: "oid saved = i" and ob: "oid blog = i"
        using Some by (simp_all add: saved findBlogById_oid)
      have "findBlogById i d' = Some saved"
        unfolding d2 [symmetric] d' ob using Some os by (rule findBlogById_saved)
      moreover have "likesCount saved = int (length (likes saved))"
        by (simp add: saved preSaveBlog_likesCount)
      ultimately show ?thesis using r by blast
    qed
  qed
qed

lemma toggleCommentLike_Inr:
  assumes "toggleCommentLike u i d = (Inr r, d')"
  shows "\<exists>c'. findCommentById i d' = Some c' \<and> c_likesCount c' = int (length (c_likes c'))
           \<and> fst r = c_likesCount c'"
proof -
  from assms obtain c where f: "findCommentById i d = Some c"
    by (auto simp: toggleCommentLike_def split: option.splits)
  define ls where "ls = (if indexOf (c_likes c) (user_id u) = - 1 then c_likes c @ [user_id u]
      else splice1 (indexOf (c_likes c) (user_id u)) (c_likes c))"
  have chg: "ls \<noteq> c_likes c"
    using toggled_likes_changed [of "c_likes c" "user_id u"] by (simp add: ls_def)
  have eq: "(if indexOf (c_likes c) (user_id u) = - 1
       then c\<lparr>c_likes := c_likes c @ [user_id u]\<rparr>
       else c\<lparr>c_likes := splice1 (indexOf (c_likes c) (user_id u)) (c_likes c)\<rparr>)
      = c\<lparr>c_likes := ls\<rparr>"
    by (simp add: ls_def)
  from assms f eq chg have
    d': "d' = updateCommentById i (\<lambda>_. c\<lparr>c_likes := ls, c_likesCount := int (length ls)\<rparr>) d"
    and r: "fst r = int (length ls)"
    by (auto simp: toggleCommentLike_def Let_def saveComment_eq preSaveComment_def
        findCommentById_oid split: if_splits)
  from f have "findCommentById i d' = Some (c\<lparr>c_likes := ls, c_likesCount := int (length ls)\<rparr>)"
    by (simp add: d' findCommentById_oid findCommentById_saved)
  then show ?thesis using r by simp
qed

text \<open>
  C1.  In every post and every comment the cached \<open>likesCount\<close> equals the cardinality
  of the like set after any run of requests (toggleLike and toggleCommentLike among
  them) from a database in which it does, such as the empty one; and every toggle that
  succeeds stores a count recomputed from the array, whatever the count was before.
\<close>

theorem likesCount_is_cardinality:
  "(likesCached d \<longrightarrow>
      (\<forall>b \<in> set (blogs (serve rs d)). likesCount b = int (card (set (likes b)))) \<and>
      (\<forall>c \<in> set (comments (serve rs d)). c_likesCount c = int (card (set (c_likes c))))) \<and>
   (toggleLike now u i d = (Inr r1, d1) \<longrightarrow>
      (\<exists>b'. findBlogById i d1 = Some b' \<and> likesCount b' = int (length (likes b'))
         \<and> fst r1 = likesCount b')) \<and>
   (toggleCommentLike u j d = (Inr r2, d2) \<longrightarrow>
      (\<exists>c'. findCommentById j d2 = Some c' \<and> c_likesCount c' = int (length (c_likes c'))
         \<and> fst r2 = c_likesCount c'))"
proof (intro conjI impI)
  assume "likesCached d"
  then have inv: "likesCached (serve rs d)" by (rule likesCached_serve)
  show "\<forall>b \<in> set (blogs (serve rs d)). likesCount b = int (card (set (likes b)))"
    using inv by (auto simp: likesCached_def list_all_iff blogLikesOk_def distinct_card)
  show "\<forall>c \<in> set (comments (serve rs d)). c_likesCount c = int (card (set (c_likes c)))"
    using inv by (auto simp: likesCached_def list_all_iff commentLikesOk_def distinct_card)
next
  assume "toggleLike now u i d = (Inr r1, d1)"
  then show "\<exists>b'. findBlogById i d1 = Some b' \<and> likesCount b' = int (length (likes b'))
      \<and> fst r1 = likesCount b'"
    by (rule toggleLike_Inr)
next
  assume "toggleCommentLike u j d = (Inr r2, d2)"
  then show "\<exists>c'. findCommentById j d2 = Some c' \<and> c_likesCount c' = int (length (c_likes c'))
      \<and> fst r2 = c_likesCount c'"
    by (rule toggleCommentLike_Inr)
qed

theorem likesCount_is_cardinality_witness:
  "likesCached db2 \<and>
   fst (toggleLike 2000 bob 1 db2) = Inr (1, True) \<and>
   fst (toggleCommentLike alice 2 db2) = Inr (1, True) \<and>
   map likesCount (blogs (serve run1 db2)) = [1] \<and>
   list_all (\<lambda>b. likesCount b = int (card (set (likes b)))) (blogs (serve run1 db2)) \<and>
   list_all (\<lambda>c. c_likesCount c = int (card (set (c_likes c)))) (comments (serve run1 db2)) \<and>
   (\<exists>b'. findBlogById 1 (snd (toggleLike 2000 bob 1 db2)) = Some b'
      \<and> likesCount b' = int (length (likes b')) \<and> likesCount b' = 1) \<and>
   (\<exists>c'. findCommentById 2 (snd (toggleCommentLike alice 2 db2)) = Some c'
      \<and> c_likesCount c' = int (length (c_likes c')) \<and> c_likesCount c' = 1)"
proof -
  have h1: "likesCached db2" by code_simp
  have f1: "fst (toggleLike 2000 bob 1 db2) = Inr (1, True)" by code_simp
  have f2: "fst (toggleCommentLike alice 2 db2) = Inr (1, True)" by code_simp
  have m: "map likesCount (blogs (serve run1 db2)) = [1]" by code_simp
  have h2: "toggleLike 2000 bob 1 db2 = (Inr (1, True), snd (toggleLike 2000 bob 1 db2))"
    using f1 by (simp add: prod_eq_iff)
  have h3: "toggleCommentLike alice 2 db2
      = (Inr (1, True), snd (toggleCommentLike alice 2 db2))"
    using f2 by (simp add: prod_eq_iff)
  note inst = likesCount_is_cardinality [of db2 run1 2000 bob 1 "(1, True)"
      "snd (toggleLike 2000 bob 1 db2)"]
  note inst' = likesCount_is_cardinality [of db2 run1 2000 alice 1 _ _ 2 "(1, True)"
      "snd (toggleCommentLike alice 2 db2)"]
  from inst h1 have
    "\<forall>b \<in> set (blogs (serve run1 db2)). likesCount b = int (card (set (likes b)))"
    "\<forall>c \<in> set (comments (serve run1 db2)). c_likesCount c = int (card (set (c_likes c)))"
    by blast+
  then have l: "list_all (\<lambda>b. likesCount b = int (card (set (likes b)))) (blogs (serve run1 db2))"
    "list_all (\<lambda>c. c_likesCount c = int (card (set (c_likes c)))) (comments (serve run1 db2))"
    by (simp_all add: list_all_iff)
  from inst h2 have e1: "\<exists>b'. findBlogById 1 (snd (toggleLike 2000 bob 1 db2)) = Some b'
      \<and> likesCount b' = int (length (likes b')) \<and> likesCount b' = 1"
    by auto
  from inst' h3 have e2: "\<exists>c'. findCommentById 2 (snd (toggleCommentLike alice 2 db2)) = Some c'
      \<and> c_likesCount c' = int (length (c_likes c')) \<and> c_likesCount c' = 1"
    by auto
  from h1 f1 f2 m l e1 e2 show ?thesis by blast
qed

lemma validateBlog_cong:
  "title b' = title b \<Longrightarrow> content b' = content b \<Longrightarrow> excerpt b' = excerpt b \<Longrightarrow>
   category b' = category b \<Longrightarrow> validateBlog b' = validateBlog b"
  by (simp add: validateBlog_def)

lemma saveBlog_plain:
  assumes "validateBlog blog" and "title b = title blog" and "content b = content blog"
    and "excerpt b = excerpt blog" and "category b = category blog"
    and "slug b = slug blog" and "likes b = likes blog"
  shows "saveBlog now blog b d = Inr (b, updateBlogById (oid b) (\<lambda>_. b) d)"
proof -
  have "validateBlog b" using assms by (simp add: validateBlog_cong [of b blog])
  then show ?thesis using assms by (simp add: saveBlog_same_title)
qed

text \<open>
  C4.  For a moderator, approveBlog on a pending or rejected post (one that passes the
  schema validators, as every stored post does) publishes it: the stored post is the
  old one with status published, publishedAt the current time and an empty
  rejectionReason.  On a published post it fails with "Blog is already published" and
  the database is unchanged.
\<close>

theorem approveBlog_transition:
  "findBlogById i d = Some b \<Longrightarrow> user_role u = RoleAdmin \<Longrightarrow>
   (status b \<in> {Pending, Rejected} \<and> validateBlog b \<longrightarrow>
      approveBlog now u i d =
        (Inr (b\<lparr>status := Published, publishedAt := Some now, rejectionReason := []\<rparr>),
         updateBlogById i
           (\<lambda>_. b\<lparr>status := Published, publishedAt := Some now, rejectionReason := []\<rparr>) d)
      \<and> findBlogById i (snd (approveBlog now u i d))
          = Some (b\<lparr>status := Published, publishedAt := Some now, rejectionReason := []\<rparr>))
   \<and> (status b = Published \<longrightarrow> approveBlog now u i d = (Inl BlogAlreadyPublished, d))"
proof (intro conjI impI)
  assume f: "findBlogById i d = Some b" and adm: "user_role u = RoleAdmin"
  {
    assume "status b = Published"
    with f adm show "approveBlog now u i d = (Inl BlogAlreadyPublished, d)"
      by (simp add: approveBlog_def)
  }
  assume h: "status b \<in> {Pending, Rejected} \<and> validateBlog b"
  let ?b = "b\<lparr>status := Published, publishedAt := Some now, rejectionReason := []\<rparr>"
  have sv: "saveBlog now b ?b d = Inr (?b, updateBlogById (oid ?b) (\<lambda>_. ?b) d)"
    using h by (intro saveBlog_plain) simp_all
  have ob: "oid b = i" using f by (rule findBlogById_oid)
  from f adm h sv ob show r: "approveBlog now u i d = (Inr ?b, updateBlogById i (\<lambda>_. ?b) d)"
    by (auto simp: approveBlog_def)
  show "findBlogById i (snd (approveBlog now u i d)) = Some ?b"
    unfolding r using f ob by (simp add: findBlogById_saved)
qed

theorem approveBlog_transition_witness:
  "fst (approveBlog 1500 carol 1 dbPending) = Inr (post1\<lparr>publishedAt := Some 1500\<rparr>) \<and>
   fst (approveBlog 1500 carol 1 dbRejected) = Inr (post1\<lparr>publishedAt := Some 1500\<rparr>) \<and>
   approveBlog 1500 carol 1 db1 = (Inl BlogAlreadyPublished, db1)"
proof -
  have v: "validateBlog post1" by code_simp
  have 1: "fst (approveBlog 1500 carol 1 dbPending) = Inr (post1\<lparr>publishedAt := Some 1500\<rparr>)"
    using approveBlog_transition [of 1 dbPending "post1\<lparr>status := Pending, publishedAt := None\<rparr>"
        carol 1500] v
    by (simp add: dbPending_def findBlogById_def carol_def post1_def validateBlog_def)
  have 2: "fst (approveBlog 1500 carol 1 dbRejected) = Inr (post1\<lparr>publishedAt := Some 1500\<rparr>)"
    using approveBlog_transition [of 1 dbRejected
        "post1\<lparr>status := Rejected, publishedAt := None, rejectionReason := ''too short''\<rparr>"
        carol 1500] v
    by (simp add: dbRejected_def findBlogById_def carol_def post1_def validateBlog_def)
  have 3: "approveBlog 1500 carol 1 db1 = (Inl BlogAlreadyPublished, db1)"
    using approveBlog_transition [of 1 db1 post1 carol 1500]
    by (simp add: db1_def findBlogById_def carol_def post1_def)
  from 1 2 3 show ?thesis by blast
qed

lemma assignFields_status:
  "status (assignFields body b) =
     (if status b = Published \<and> (truthy (req_title body) \<or> truthy (req_content body))
      then Pending else status b)"
  by (simp add: assignFields_def Let_def split: option.splits)

lemma assignFields_publishedAt:
  "publishedAt (assignFields body b) =
     (if status b = Published \<and> (truthy (req_title body) \<or> truthy (req_content body))
      then None else publishedAt b)"
  by (simp add: assignFields_def Let_def split: option.splits)

lemma assignFields_excerpt:
  "excerpt (assignFields body b) = (case req_excerpt body of None \<Rightarrow> excerpt b | Some e \<Rightarrow> Some e)"
  by (simp add: assignFields_def Let_def split: option.splits)

lemma updateBlog_Inr:
  assumes "findBlogById i d = Some b" and "updateBlog now u i body d = (Inr b', d')"
  shows "author b = user_id u" and "saveBlog now b (assignFields body b) d = Inr (b', d')"
    and "findBlogById i d' = Some b'"
proof -
  from assms show a: "author b = user_id u"
    by (simp add: updateBlog_def split: if_splits)
  from assms a show sv: "saveBlog now b (assignFields body b) d = Inr (b', d')"
    by (cases "saveBlog now b (assignFields body b) d") (auto simp: updateBlog_def)
  from saveBlog_Inr [OF sv] have d': "d' = updateBlogById (oid (assignFields body b)) (\<lambda>_. b') d"
    and ob: "oid b' = oid b" by simp_all
  have "oid b = i" using assms(1) by (rule findBlogById_oid)
  with d' ob assms(1) show "findBlogById i d' = Some b'"
    by (simp add: findBlogById_saved)
qed

lemma updateBlog_Inl: "updateBlog now u i body d = (Inl e, d') \<Longrightarrow> d' = d"
  by (auto simp: updateBlog_def split: option.splits if_splits sum.splits)

text \<open>
  C5.  An edit of a published post by its author that the store accepts (the edited
  document passes the schema validators and its new slug is free): when the body gives
  a non-empty title or content, the stored post is pending with publishedAt null; when
  it gives neither (only tags, category, excerpt or cover image), the stored post is
  still published with the publishedAt it had.  An edit that fails leaves the database
  as it was.  An empty string counts as no title and no content, as in the
  controller's truthiness tests.
\<close>

theorem updateBlog_demotes_on_title_or_content:
  "findBlogById i d = Some b \<Longrightarrow> author b = user_id u \<Longrightarrow> status b = Published \<Longrightarrow>
   (updateBlog now u i body d = (Inr b', d') \<longrightarrow>
      findBlogById i d' = Some b' \<and>
      (truthy (req_title body) \<or> truthy (req_content body) \<longrightarrow>
         status b' = Pending \<and> publishedAt b' = None) \<and>
      (\<not> truthy (req_title body) \<and> \<not> truthy (req_content body) \<longrightarrow>
         status b' = Published \<and> publishedAt b' = publishedAt b)) \<and>
   (updateBlog now u i body d = (Inl e, d') \<longrightarrow> d' = d)"
proof (intro conjI impI)
  assume f: "findBlogById i d = Some b" and st: "status b = Published"
  {
    assume "updateBlog now u i body d = (Inl e, d')"
    then show "d' = d" by (rule updateBlog_Inl)
  }
  assume r: "updateBlog now u i body d = (Inr b', d')"
  from updateBlog_Inr(3) [OF f r] show "findBlogById i d' = Some b'" .
  from saveBlog_Inr [OF updateBlog_Inr(2) [OF f r]]
  have s: "status b' = status (assignFields body b)"
    and p: "publishedAt b' = publishedAt (assignFields body b)"
    by simp_all
  {
    assume "truthy (req_title body) \<or> truthy (req_content body)"
    with s p st show "status b' = Pending" and "publishedAt b' = None"
      by (simp_all add: assignFields_status assignFields_publishedAt)
  }
  {
    assume "\<not> truthy (req_title body) \<and> \<not> truthy (req_content body)"
    with s p st show "status b' = Published" and "publishedAt b' = publishedAt b"
      by (simp_all add: assignFields_status assignFields_publishedAt)
  }
qed


theorem updateBlog_demotes_on_title_or_content_witness:
  "fst (updateBlog 3000 alice 1 bodyTitle db1)
     = Inr (post1\<lparr>title := ''Second thoughts'', slug := ''second-thoughts-3000'',
              status := Pending, publishedAt := None\<rparr>) \<and>
   map status (blogs (snd (updateBlog 3000 alice 1 bodyTitle db1))) = [Pending] \<and>
   fst (updateBlog 3000 alice 1 bodyTags db1) = Inr (post1\<lparr>tags := [''news'']\<rparr>) \<and>
   findBlogById 1 (snd (updateBlog 3000 alice 1 bodyTags db1)) = Some (post1\<lparr>tags := [''news'']\<rparr>) \<and>
   status (post1\<lparr>tags := [''news'']\<rparr>) = Published \<and>
   publishedAt (post1\<lparr>tags := [''news'']\<rparr>) = Some 1000 \<and>
   updateBlog 3000 alice 1 (bodyNone\<lparr>req_title := Some ''abc''\<rparr>) db1 = (Inl ServerError, db1)"
proof -
  have f: "findBlogById 1 db1 = Some post1" "author post1 = user_id alice"
    "status post1 = Published"
    by (simp_all add: findBlogById_def db1_def post1_def alice_def)
  have t: "\<not> truthy (req_title bodyTags) \<and> \<not> truthy (req_content bodyTags)"
    by (simp add: bodyTags_def bodyNone_def truthy_def)
  have 1: "fst (updateBlog 3000 alice 1 bodyTitle db1)
     = Inr (post1\<lparr>title := ''Second thoughts'', slug := ''second-thoughts-3000'',
              status := Pending, publishedAt := None\<rparr>)"
    by code_simp
  have 2: "map status (blogs (snd (updateBlog 3000 alice 1 bodyTitle db1))) = [Pending]"
    by code_simp
  have 3: "fst (updateBlog 3000 alice 1 bodyTags db1) = Inr (post1\<lparr>tags := [''news'']\<rparr>)"
    by code_simp
  have 4: "updateBlog 3000 alice 1 (bodyNone\<lparr>req_title := Some ''abc''\<rparr>) db1
      = (Inl ServerError, db1)"
    by code_simp
  have u3: "updateBlog 3000 alice 1 bodyTags db1
      = (Inr (post1\<lparr>tags := [''news'']\<rparr>), snd (updateBlog 3000 alice 1 bodyTags db1))"
    using 3 by (simp add: prod_eq_iff)
  from updateBlog_demotes_on_title_or_content [OF f, of 3000 bodyTags
      "post1\<lparr>tags := [''news'']\<rparr>" "snd (updateBlog 3000 alice 1 bodyTags db1)"] u3 t
  have 5: "findBlogById 1 (snd (updateBlog 3000 alice 1 bodyTags db1))
        = Some (post1\<lparr>tags := [''news'']\<rparr>)"
    "status (post1\<lparr>tags := [''news'']\<rparr>) = Published"
    "publishedAt (post1\<lparr>tags := [''news'']\<rparr>) = Some 1000"
    by (simp_all add: post1_def)
  from 1 2 3 4 5 show ?thesis by blast
qed

lemma fold_max_ge: "(a::nat) \<le> fold max xs a \<and> (\<forall>x \<in> set xs. x \<le> fold max xs a)"
proof (induction xs arbitrary: a)
  case Nil
  show ?case by simp
next
  case (Cons y ys)
  from Cons [of "max y a"] show ?case by (auto simp: max_def split: if_splits)
qed

lemma newBlogId_fresh: "b \<in> set (blogs d) \<Longrightarrow> oid b < newBlogId d"
  using fold_max_ge [of 0 "map oid (blogs d)"] by (auto simp: newBlogId_def less_Suc_eq_le)

lemma newCommentId_fresh: "c \<in> set (comments d) \<Longrightarrow> c_oid c < newCommentId d"
  using fold_max_ge [of 0 "map c_oid (comments d)"]
  by (auto simp: newCommentId_def less_Suc_eq_le)

lemma find_append_new:
  "(\<And>x. x \<in> set xs \<Longrightarrow> \<not> P x) \<Longrightarrow> P y \<Longrightarrow> find P (xs @ [y]) = Some y"
  by (induction xs) auto

lemma find_append_old:
  "\<not> P y \<Longrightarrow> find P (xs @ [y]) = find P xs"
  by (induction xs) auto

lemma createBlog_Inr:
  assumes "createBlog now u body d = (Inr b, d')"
  shows "excerpt b = (if truthy (req_excerpt body) then req_excerpt body
                      else Some (take 150 (content b) @ ''...''))"
    and "findBlogById (oid b) d' = Some b" and "status b = Pending"
    and "findBlogById (oid b) d = None"
proof -
  let ?blog = "\<lparr>oid = newBlogId d, title = trim (trim (orEmpty (req_title body))), slug = [],
      content = trim (orEmpty (req_content body)), excerpt = req_excerpt body,
      coverImage = orEmpty (req_coverImage body), author = user_id u,
      category = orEmpty (req_category body),
      tags = map trim (case req_tags body of None \<Rightarrow> [] | Some ts \<Rightarrow> ts),
      status = Pending, publishedAt = None, views = 0, likes = [], likesCount = 0,
      commentsCount = 0, readTime = 0, isDeleted = False, rejectionReason = []\<rparr>"
  from assms have b: "b = preSaveBlog now True True False ?blog"
    and d': "d' = d\<lparr>blogs := blogs d @ [b]\<rparr>"
    by (auto simp: createBlog_def Let_def split: if_splits)
  show "excerpt b = (if truthy (req_excerpt body) then req_excerpt body
                      else Some (take 150 (content b) @ ''...''))"
    by (simp add: b preSaveBlog_excerpt)
  show "status b = Pending" by (simp add: b)
  have ob: "oid b = newBlogId d" by (simp add: b)
  have fresh: "\<And>x. x \<in> set (blogs d) \<Longrightarrow> oid x \<noteq> oid b"
    using newBlogId_fresh [of _ d] ob by fastforce
  then show "findBlogById (oid b) d' = Some b"
    by (simp add: findBlogById_def d' find_append_new)
  from fresh show "findBlogById (oid b) d = None"
    by (auto simp: findBlogById_def find_None_iff)
qed

text \<open>
  C10.  A post created without an excerpt whose stored content is longer than 150
  characters has the first 150 characters of the content followed by "..." as its
  excerpt; an edit that gives a non-empty excerpt and succeeds stores exactly that
  excerpt, whatever content the edit gives.
\<close>

theorem excerpt_derivation:
  "(createBlog now u body d = (Inr b, d') \<longrightarrow> req_excerpt body = None \<longrightarrow>
      150 < length (content b) \<longrightarrow>
      findBlogById (oid b) d' = Some b \<and>
      excerpt b = Some (take 150 (content b) @ ''...'')) \<and>
   (findBlogById i d = Some b0 \<longrightarrow> updateBlog now u i body2 d = (Inr b2, d2) \<longrightarrow>
      req_excerpt body2 = Some e \<longrightarrow> e \<noteq> [] \<longrightarrow>
      findBlogById i d2 = Some b2 \<and> excerpt b2 = Some e)"
proof (intro conjI impI)
  assume c: "createBlog now u body d = (Inr b, d')" and "req_excerpt body = None"
  with createBlog_Inr(1) [OF c] show "excerpt b = Some (take 150 (content b) @ ''...'')"
    by (simp add: truthy_def)
  from createBlog_Inr(2) [OF c] show "findBlogById (oid b) d' = Some b" .
next
  assume f: "findBlogById i d = Some b0" and r: "updateBlog now u i body2 d = (Inr b2, d2)"
    and e: "req_excerpt body2 = Some e" "e \<noteq> []"
  from updateBlog_Inr(3) [OF f r] show "findBlogById i d2 = Some b2" .
  from saveBlog_Inr [OF updateBlog_Inr(2) [OF f r]] e
  show "excerpt b2 = Some e"
    by (simp add: preSaveBlog_excerpt assignFields_excerpt truthy_def)
qed

theorem excerpt_derivation_witness:
  "req_excerpt body1 = None \<and>
   fst (createBlog 1000 alice body1 emptyDb)
     = Inr (post1\<lparr>content := replicate 200 (CHR ''a''),
              excerpt := Some (replicate 150 (CHR ''a'') @ ''...''),
              status := Pending, publishedAt := None\<rparr>) \<and>
   fst (updateBlog 3000 alice 1 bodyExcerpt db1)
     = Inr (post1\<lparr>content := replicate 400 (CHR ''b''), excerpt := Some ''my summary'',
              status := Pending, publishedAt := None\<rparr>) \<and>
   findBlogById 1 (snd (createBlog 1000 alice body1 emptyDb))
     = Some (post1\<lparr>content := replicate 200 (CHR ''a''),
              excerpt := Some (replicate 150 (CHR ''a'') @ ''...''),
              status := Pending, publishedAt := None\<rparr>) \<and>
   findBlogById 1 (snd (updateBlog 3000 alice 1 bodyExcerpt db1))
     = Some (post1\<lparr>content := replicate 400 (CHR ''b''), excerpt := Some ''my summary'',
              status := Pending, publishedAt := None\<rparr>)"
proof -
  let ?c = "post1\<lparr>content := replicate 200 (CHR ''a''),
              excerpt := Some (replicate 150 (CHR ''a'') @ ''...''),
              status := Pending, publishedAt := None\<rparr>"
  let ?e = "post1\<lparr>content := replicate 400 (CHR ''b''), excerpt := Some ''my summary'',
              status := Pending, publishedAt := None\<rparr>"
  have n: "req_excerpt body1 = None" by (simp add: body1_def)
  have 1: "fst (createBlog 1000 alice body1 emptyDb) = Inr ?c" by code_simp
  have 2: "fst (updateBlog 3000 alice 1 bodyExcerpt db1) = Inr ?e" by code_simp
  have u1: "createBlog 1000 alice body1 emptyDb
      = (Inr ?c, snd (createBlog 1000 alice body1 emptyDb))"
    using 1 by (simp add: prod_eq_iff)
  have u2: "updateBlog 3000 alice 1 bodyExcerpt db1
      = (Inr ?e, snd (updateBlog 3000 alice 1 bodyExcerpt db1))"
    using 2 by (simp add: prod_eq_iff)
  have f: "findBlogById 1 db1 = Some post1"
    by (simp add: findBlogById_def db1_def post1_def)
  have x: "req_excerpt bodyExcerpt = Some ''my summary''"
    by (simp add: bodyExcerpt_def bodyNone_def)
  note inst = excerpt_derivation [of 1000 alice body1 emptyDb ?c
      "snd (createBlog 1000 alice body1 emptyDb)"]
  have o: "oid ?c = 1" "150 < length (content ?c)" by (simp_all add: post1_def)
  from inst u1 n o have 3: "findBlogById 1 (snd (createBlog 1000 alice body1 emptyDb)) = Some ?c"
    by simp
  note inst' = excerpt_derivation [of 3000 alice _ db1 _ _ 1 post1 bodyExcerpt ?e
      "snd (updateBlog 3000 alice 1 bodyExcerpt db1)" "''my summary''"]
  from inst' u2 f x have 4: "findBlogById 1 (snd (updateBlog 3000 alice 1 bodyExcerpt db1)) = Some ?e"
    by simp
  from n 1 2 3 4 show ?thesis by blast
qed

lemma dropWhile_rev_dropWhile:
  "dropWhile P (rev (dropWhile P (rev (dropWhile P s)))) = rev (dropWhile P (rev (dropWhile P s)))"
proof (cases "dropWhile P s")
  case Nil
  show ?thesis unfolding Nil by simp
next
  case (Cons x xs)
  then have nx: "\<not> P x" using hd_dropWhile [of P s] by auto
  have "\<exists>ys. dropWhile P (rev (x # xs)) = ys @ [x]"
    using nx by (auto simp: dropWhile_append)
  then obtain ys where "dropWhile P (rev (x # xs)) = ys @ [x]" ..
  with Cons nx show ?thesis by simp
qed

lemma trim_idem: "trim (trim s) = trim s"
proof -
  let ?t = "rev (dropWhile isSpace (rev (dropWhile isSpace s)))"
  have "dropWhile isSpace ?t = ?t" by (rule dropWhile_rev_dropWhile)
  then show ?thesis by (simp add: trim_def dropWhile_idem)
qed

lemma newCommentId_neq: "c \<in> set (comments d) \<Longrightarrow> c_oid c \<noteq> newCommentId d"
  using newCommentId_fresh [of c d] by simp

lemma findBlogById_comments_update [simp]:
  "findBlogById i (d\<lparr>comments := cs\<rparr>) = findBlogById i d"
  by (simp add: findBlogById_def)

lemma findCommentById_new:
  "c_oid c = newCommentId d \<Longrightarrow>
   findCommentById (newCommentId d) (d\<lparr>comments := comments d @ [c]\<rparr>) = Some c"
  by (auto simp: findCommentById_def intro!: find_append_new dest: newCommentId_neq)

lemma findCommentById_old:
  "findCommentById p d = Some pc \<Longrightarrow> c_oid c = newCommentId d \<Longrightarrow>
   findCommentById p (d\<lparr>comments := comments d @ [c]\<rparr>) = Some pc \<and> p \<noteq> newCommentId d"
proof -
  assume f: "findCommentById p d = Some pc" and c: "c_oid c = newCommentId d"
  from f have "pc \<in> set (comments d)" "c_oid pc = p"
    by (auto dest: findCommentById_mem findCommentById_oid)
  with newCommentId_fresh [of pc d] have ne: "p \<noteq> newCommentId d" by auto
  with f c show ?thesis by (simp add: findCommentById_def find_append_old)
qed

lemma findCommentById_fresh: "findCommentById (newCommentId d) d = None"
  by (auto simp: findCommentById_def find_None_iff dest: newCommentId_neq)

lemma createComment_ok:
  fixes now :: nat and u :: reqUser
  assumes f: "findBlogById blogId d = Some b" and st: "status b = Published"
    and v: "validateBlog b"
    and len: "1 \<le> length (trim txt)" "length (trim txt) \<le> 1000"
    and par: "\<And>p. parent = Some p \<Longrightarrow> findCommentById p d \<noteq> None"
  defines "c \<equiv> \<lparr>c_oid = newCommentId d, c_blog = blogId, c_user = user_id u,
      c_content = trim txt, c_parentComment = parent, c_replies = [], c_likes = [],
      c_likesCount = 0, c_isEdited = False, c_isDeleted = False, c_createdAt = now\<rparr>"
  defines "d2 \<equiv> (case parent of None \<Rightarrow> d\<lparr>comments := comments d @ [c]\<rparr>
      | Some p \<Rightarrow> updateCommentById p (\<lambda>pc. pc\<lparr>c_replies := c_replies pc @ [newCommentId d]\<rparr>)
          (d\<lparr>comments := comments d @ [c]\<rparr>))"
  shows "createComment now u blogId txt parent d
      = (Inr c, updateBlogById blogId (\<lambda>_. b\<lparr>commentsCount := commentsCount b + 1\<rparr>) d2)"
proof -
  have ob: "oid b = blogId" using f by (rule findBlogById_oid)
  have sv: "saveBlog now b (b\<lparr>commentsCount := commentsCount b + 1\<rparr>) dd
      = Inr (b\<lparr>commentsCount := commentsCount b + 1\<rparr>,
             updateBlogById blogId (\<lambda>_. b\<lparr>commentsCount := commentsCount b + 1\<rparr>) dd)" for dd
    using saveBlog_plain [OF v, of "b\<lparr>commentsCount := commentsCount b + 1\<rparr>" now dd] ob
    by simp
  show ?thesis
  proof (cases parent)
    case None
    with f st len sv show ?thesis
      by (simp add: createComment_def Let_def c_def d2_def trim_idem)
  next
    case (Some p)
    with par have "findCommentById p d \<noteq> None" by simp
    with Some f st len sv show ?thesis
      by (simp add: createComment_def Let_def c_def d2_def trim_idem)
  qed
qed

text \<open>
  C6.  createComment with content the route accepts (1 to 1000 characters once trimmed):
  on a pending post it fails with "Cannot comment on unpublished blog" and the database
  is unchanged; on a published post (that passes the schema validators, with an existing
  parent when one is named) it succeeds, the new comment is stored under an id no
  comment had, the parent's replies gain that id at the end, and the post's
  commentsCount is one more than before.
\<close>

theorem createComment_effect:
  "findBlogById blogId d = Some b \<Longrightarrow>
   1 \<le> length (trim txt) \<Longrightarrow> length (trim txt) \<le> 1000 \<Longrightarrow>
   (status b = Pending \<longrightarrow>
      createComment now u blogId txt parent d = (Inl CannotCommentUnpublished, d)) \<and>
   (status b = Published \<and> validateBlog b
      \<and> (case parent of None \<Rightarrow> True | Some p \<Rightarrow> findCommentById p d \<noteq> None) \<longrightarrow>
      (\<exists>c d'. createComment now u blogId txt parent d = (Inr c, d') \<and>
         findCommentById (c_oid c) d = None \<and>
         findCommentById (c_oid c) d' = Some c \<and>
         c_blog c = blogId \<and> c_user c = user_id u \<and> c_content c = trim txt \<and>
         c_parentComment c = parent \<and> \<not> c_isDeleted c \<and>
         (case parent of
            None \<Rightarrow> True
          | Some p \<Rightarrow>
              map_option c_replies (findCommentById p d')
                = map_option (\<lambda>pc. c_replies pc @ [c_oid c]) (findCommentById p d)) \<and>
         map_option commentsCount (findBlogById blogId d') = Some (commentsCount b + 1)))"
proof (intro conjI impI)
  assume f: "findBlogById blogId d = Some b"
    and len: "1 \<le> length (trim txt)" "length (trim txt) \<le> 1000"
  {
    assume "status b = Pending"
    with f len show "createComment now u blogId txt parent d = (Inl CannotCommentUnpublished, d)"
      by (simp add: createComment_def Let_def)
  }
  assume h: "status b = Published \<and> validateBlog b
      \<and> (case parent of None \<Rightarrow> True | Some p \<Rightarrow> findCommentById p d \<noteq> None)"
  define c where "c = \<lparr>c_oid = newCommentId d, c_blog = blogId, c_user = user_id u,
      c_content = trim txt, c_parentComment = parent, c_replies = [], c_likes = [],
      c_likesCount = 0, c_isEdited = False, c_isDeleted = False, c_createdAt = now\<rparr>"
  define d1 where "d1 = d\<lparr>comments := comments d @ [c]\<rparr>"
  define d2 where "d2 = (case parent of None \<Rightarrow> d1
      | Some p \<Rightarrow> updateCommentById p (\<lambda>pc. pc\<lparr>c_replies := c_replies pc @ [newCommentId d]\<rparr>) d1)"
  define d' where "d' = updateBlogById blogId (\<lambda>_. b\<lparr>commentsCount := commentsCount b + 1\<rparr>) d2"
  have oc: "c_oid c = newCommentId d" by (simp add: c_def)
  have r: "createComment now u blogId txt parent d = (Inr c, d')"
    using createComment_ok [OF f _ _ len, of parent now u] h
    by (auto simp: c_def d1_def d2_def d'_def split: option.splits)
  have new1: "findCommentById (newCommentId d) d1 = Some c"
    unfolding d1_def using oc by (rule findCommentById_new)
  have f2: "findBlogById blogId d2 = Some b"
    using f by (simp add: d2_def d1_def split: option.splits)
  have ob: "oid b = blogId" using f by (rule findBlogById_oid)
  have cnt: "map_option commentsCount (findBlogById blogId d') = Some (commentsCount b + 1)"
    unfolding d'_def using f2 ob by (simp add: findBlogById_saved)
  have new: "findCommentById (c_oid c) d' = Some c"
    and rep: "(case parent of
            None \<Rightarrow> True
          | Some p \<Rightarrow>
              map_option c_replies (findCommentById p d')
                = map_option (\<lambda>pc. c_replies pc @ [c_oid c]) (findCommentById p d))"
  proof -
    show "findCommentById (c_oid c) d' = Some c"
    proof (cases parent)
      case None
      with new1 show ?thesis by (simp add: d'_def d2_def oc)
    next
      case (Some p)
      with h obtain pc where pc: "findCommentById p d = Some pc" by auto
      from findCommentById_old [OF pc oc] have "p \<noteq> newCommentId d" by simp
      with Some new1 show ?thesis
        by (simp add: d'_def d2_def oc findCommentById_update)
    qed
    show "(case parent of
            None \<Rightarrow> True
          | Some p \<Rightarrow>
              map_option c_replies (findCommentById p d')
                = map_option (\<lambda>pc. c_replies pc @ [c_oid c]) (findCommentById p d))"
    proof (cases parent)
      case None
      then show ?thesis by simp
    next
      case (Some p)
      with h obtain pc where pc: "findCommentById p d = Some pc" by auto
      from findCommentById_old [OF pc oc] have "findCommentById p d1 = Some pc"
        by (simp add: d1_def)
      with Some pc show ?thesis
        by (simp add: d'_def d2_def oc findCommentById_update findCommentById_oid)
    qed
  qed
  have "findCommentById (c_oid c) d = None" by (simp add: oc findCommentById_fresh)
  with r new rep cnt
  show "\<exists>c d'. createComment now u blogId txt parent d = (Inr c, d') \<and>
         findCommentById (c_oid c) d = None \<and>
         findCommentById (c_oid c) d' = Some c \<and>
         c_blog c = blogId \<and> c_user c = user_id u \<and> c_content c = trim txt \<and>
         c_parentComment c = parent \<and> \<not> c_isDeleted c \<and>
         (case parent of
            None \<Rightarrow> True
          | Some p \<Rightarrow>
              map_option c_replies (findCommentById p d')
                = map_option (\<lambda>pc. c_replies pc @ [c_oid c]) (findCommentById p d)) \<and>
         map_option commentsCount (findBlogById blogId d') = Some (commentsCount b + 1)"
    by (intro exI [of _ c] exI [of _ d']) (simp add: c_def)
qed

theorem createComment_effect_witness:
  "createComment 5000 alice 1 '' thanks '' (Some 1) dbPending
     = (Inl CannotCommentUnpublished, dbPending) \<and>
   map c_replies (comments (snd (createComment 5000 alice 1 '' thanks '' (Some 1) db2)))
     = [[2, 3], [], []] \<and>
   map commentsCount (blogs db2) = [2] \<and>
   map commentsCount (blogs (snd (createComment 5000 alice 1 '' thanks '' (Some 1) db2))) = [3] \<and>
   (\<exists>c d'. createComment 5000 alice 1 '' thanks '' (Some 1) db2 = (Inr c, d') \<and>
      findCommentById (c_oid c) db2 = None \<and> findCommentById (c_oid c) d' = Some c \<and>
      c_content c = ''thanks'' \<and> c_parentComment c = Some 1 \<and>
      map_option c_replies (findCommentById 1 d') = Some [2, c_oid c] \<and>
      map_option commentsCount (findBlogById 1 d') = Some 3)"
proof -
  have t: "trim '' thanks '' = ''thanks''" by code_simp
  have fp: "findBlogById 1 dbPending = Some (post1\<lparr>status := Pending, publishedAt := None\<rparr>)"
    by (simp add: findBlogById_def dbPending_def post1_def)
  have f2: "findBlogById 1 db2 = Some (post1\<lparr>commentsCount := 2\<rparr>)"
    by (simp add: findBlogById_def db2_def post1_def)
  have v: "validateBlog (post1\<lparr>commentsCount := 2\<rparr>)" by code_simp
  have p: "findCommentById 1 db2 = Some comment1"
    by (simp add: findCommentById_def db2_def comment1_def)
  have 1: "createComment 5000 alice 1 '' thanks '' (Some 1) dbPending
     = (Inl CannotCommentUnpublished, dbPending)"
    using createComment_effect [OF fp, of "'' thanks ''" 5000 alice "Some 1"]
    by (simp add: t)
  have 2: "map c_replies (comments (snd (createComment 5000 alice 1 '' thanks '' (Some 1) db2)))
     = [[2, 3], [], []]"
    by code_simp
  have 3: "map commentsCount (blogs db2) = [2]" by code_simp
  have 4: "map commentsCount (blogs (snd (createComment 5000 alice 1 '' thanks '' (Some 1) db2)))
     = [3]"
    by code_simp
  have 5: "\<exists>c d'. createComment 5000 alice 1 '' thanks '' (Some 1) db2 = (Inr c, d') \<and>
      findCommentById (c_oid c) db2 = None \<and> findCommentById (c_oid c) d' = Some c \<and>
      c_content c = ''thanks'' \<and> c_parentComment c = Some 1 \<and>
      map_option c_replies (findCommentById 1 d') = Some [2, c_oid c] \<and>
      map_option commentsCount (findBlogById 1 d') = Some 3"
    using createComment_effect [OF f2, of "'' thanks ''" 5000 alice "Some 1"] v p
    by (auto simp: t post1_def comment1_def)
  from 1 2 3 4 5 show ?thesis by blast
qed

lemma trim_deleted: "trim ''[deleted]'' = ''[deleted]''"
  by (simp add: trim_def isSpace_def)

lemma trim_deleted_by_admin: "trim ''[deleted by admin]'' = ''[deleted by admin]''"
  by (simp add: trim_def isSpace_def)

lemma deleteComment_ok:
  assumes "findCommentById cid d = Some c" and "c_user c = user_id u"
  shows "deleteComment u cid d
     = (Inr (),
        updateBlogById (c_blog c) (\<lambda>b. b\<lparr>commentsCount := commentsCount b - 1\<rparr>)
          (updateCommentById cid (\<lambda>_. c\<lparr>c_isDeleted := True, c_content := ''[deleted]''\<rparr>) d))"
  using assms
  by (simp add: deleteComment_def saveComment_eq validateComment_def preSaveComment_def
      trim_deleted findCommentById_oid)

lemma deleteCommentAdmin_ok:
  assumes "findCommentById cid d = Some c" and "user_role u = RoleAdmin"
  shows "deleteCommentAdmin u cid d
     = (Inr (),
        updateBlogById (c_blog c) (\<lambda>b. b\<lparr>commentsCount := commentsCount b - 1\<rparr>)
          (updateCommentById cid
             (\<lambda>_. c\<lparr>c_isDeleted := True, c_content := ''[deleted by admin]''\<rparr>) d))"
  using assms
  by (simp add: deleteCommentAdmin_def saveComment_eq validateComment_def preSaveComment_def
      trim_deleted_by_admin findCommentById_oid)

lemma findBlogById_dec:
  "findBlogById i d = Some b \<Longrightarrow>
   findBlogById i (updateBlogById i (\<lambda>b. b\<lparr>commentsCount := commentsCount b - 1\<rparr>) d)
     = Some (b\<lparr>commentsCount := commentsCount b - 1\<rparr>)"
  by (simp add: findBlogById_update findBlogById_oid)

lemma set_sortComments [simp]: "set (sortComments srt xs) = set xs"
  by (cases srt) (simp_all add: sortComments_def)

lemma paginate_subset: "paginate sk lim xs = Inr ys \<Longrightarrow> set ys \<subseteq> set xs"
  by (auto simp: paginate_def Let_def split: if_splits dest: in_set_takeD in_set_dropD)

lemma set_map_filter_iff:
  "y \<in> set (List.map_filter g xs) \<longleftrightarrow> (\<exists>x \<in> set xs. g x = Some y)"
  by (induction xs) (auto split: option.splits)

lemma populateReplies_mem:
  "r \<in> set (populateReplies d c) \<Longrightarrow>
   \<exists>i \<in> set (c_replies c). findCommentById i d = Some r \<and> \<not> c_isDeleted r"
  by (auto simp: populateReplies_def set_map_filter_iff split: option.splits if_splits)

lemma getComments_shown:
  assumes "getComments blogId pn ln srt d = Inr (out, n)" and "(c, rs) \<in> set out"
  shows "c \<in> set (comments d) \<and> c_blog c = blogId \<and> c_parentComment c = None
      \<and> \<not> c_isDeleted c \<and> rs = populateReplies d c"
proof -
  let ?top = "filter (\<lambda>c. c_blog c = blogId \<and> c_parentComment c = None \<and> \<not> c_isDeleted c)
                      (comments d)"
  from assms(1) obtain page where
    p: "paginate ((pn - 1) * ln) ln (sortComments srt ?top) = Inr page"
    and out: "out = map (\<lambda>c. (c, populateReplies d c)) page"
    by (auto simp: getComments_def Let_def split: option.splits sum.splits)
  from assms(2) out have "c \<in> set page" and rs: "rs = populateReplies d c" by auto
  with paginate_subset [OF p] have "c \<in> set ?top" by auto
  with rs show ?thesis by simp
qed

lemma getComments_listed_live:
  assumes "getComments blogId pn ln srt d = Inr (out, n)" and "i \<in> set (listedIds out)"
  shows "\<exists>x \<in> set (comments d). c_oid x = i \<and> \<not> c_isDeleted x"
proof -
  from assms(2) obtain c rs where m: "(c, rs) \<in> set out"
    and i: "i = c_oid c \<or> i \<in> c_oid ` set rs"
    by (auto simp: listedIds_def)
  from getComments_shown [OF assms(1) m]
  have c: "c \<in> set (comments d)" "\<not> c_isDeleted c" and rs: "rs = populateReplies d c"
    by simp_all
  from i show ?thesis
  proof
    assume "i = c_oid c"
    with c show ?thesis by blast
  next
    assume "i \<in> c_oid ` set rs"
    then obtain r where r: "r \<in> set (populateReplies d c)" "i = c_oid r"
      using rs by auto
    from populateReplies_mem [OF r(1)] obtain j where
      "findCommentById j d = Some r" "\<not> c_isDeleted r" by blast
    with r(2) show ?thesis by (auto dest: findCommentById_mem)
  qed
qed

lemma deleted_everywhere:
  assumes "c_oid c' = cid" and "c_isDeleted c'"
    and "x \<in> set (comments (updateBlogById j g (updateCommentById cid (\<lambda>_. c') d)))"
    and "c_oid x = cid"
  shows "c_isDeleted x"
  using assms by (auto simp: updateCommentById_def split: if_splits)

text \<open>
  C7.  deleteComment by the author of an existing comment that is not deleted, on a
  post that exists: it succeeds; the stored comment is the old one with isDeleted true
  and content "[deleted]"; the post's commentsCount is one less; every comment keeps the
  replies list it had, so the id stays in its parent's list; and no later answer of
  getComments, for any blog, page, limit and sort, shows the id, neither at top level nor
  among the replies.
\<close>

theorem deleteComment_tombstone:
  "findCommentById cid d = Some c \<Longrightarrow> \<not> c_isDeleted c \<Longrightarrow> c_user c = user_id u \<Longrightarrow>
   findBlogById (c_blog c) d = Some b \<Longrightarrow>
   (\<exists>d'. deleteComment u cid d = (Inr (), d') \<and>
      findCommentById cid d' = Some (c\<lparr>c_isDeleted := True, c_content := ''[deleted]''\<rparr>) \<and>
      map_option commentsCount (findBlogById (c_blog c) d') = Some (commentsCount b - 1) \<and>
      (\<forall>p pc. findCommentById p d = Some pc \<longrightarrow>
         map_option c_replies (findCommentById p d') = Some (c_replies pc)) \<and>
      (\<forall>blogId pn ln srt out n.
         getComments blogId pn ln srt d' = Inr (out, n) \<longrightarrow> cid \<notin> set (listedIds out)))"
proof -
  assume f: "findCommentById cid d = Some c" and u: "c_user c = user_id u"
    and fb: "findBlogById (c_blog c) d = Some b"
  let ?c = "c\<lparr>c_isDeleted := True, c_content := ''[deleted]''\<rparr>"
  let ?d1 = "updateCommentById cid (\<lambda>_. ?c) d"
  let ?d' = "updateBlogById (c_blog c) (\<lambda>b. b\<lparr>commentsCount := commentsCount b - 1\<rparr>) ?d1"
  have oc: "c_oid c = cid" using f by (rule findCommentById_oid)
  have r: "deleteComment u cid d = (Inr (), ?d')" using f u by (rule deleteComment_ok)
  have 1: "findCommentById cid ?d' = Some ?c"
    using f oc by (simp add: findCommentById_saved)
  have 2: "map_option commentsCount (findBlogById (c_blog c) ?d') = Some (commentsCount b - 1)"
    using fb by (simp add: findBlogById_dec)
  have 3: "map_option c_replies (findCommentById p ?d') = Some (c_replies pc)"
    if "findCommentById p d = Some pc" for p pc
  proof (cases "p = cid")
    case True
    with that f have "pc = c" by simp
    with True 1 show ?thesis by simp
  next
    case False
    moreover from that have "c_oid pc = p" by (rule findCommentById_oid)
    ultimately show ?thesis using that oc by (simp add: findCommentById_update)
  qed
  have 4: "cid \<notin> set (listedIds out)"
    if g: "getComments blogId pn ln srt ?d' = Inr (out, n)" for blogId pn ln srt out n
  proof
    assume "cid \<in> set (listedIds out)"
    from getComments_listed_live [OF g this] obtain x where
      x: "x \<in> set (comments ?d')" "c_oid x = cid" "\<not> c_isDeleted x" by blast
    from deleted_everywhere [OF _ _ x(1,2), of ] oc x(3) show False by simp
  qed
  from r 1 2 3 4 show ?thesis by blast
qed

theorem deleteComment_tombstone_witness:
  "getComments 1 1 20 (SortDesc FieldCreatedAt) db2 = Inr ([(comment1, [comment2])], 1) \<and>
   getComments 1 1 20 (SortDesc FieldCreatedAt) (snd (deleteComment carol 2 db2))
     = Inr ([(comment1, [])], 1) \<and>
   map c_replies (comments (snd (deleteComment carol 2 db2))) = [[2], []] \<and>
   map commentsCount (blogs (snd (deleteComment carol 2 db2))) = [1] \<and>
   2 \<notin> set (listedIds [(comment1, [])]) \<and>
   (\<exists>d'. deleteComment carol 2 db2 = (Inr (), d') \<and>
      findCommentById 2 d'
        = Some (comment2\<lparr>c_isDeleted := True, c_content := ''[deleted]''\<rparr>) \<and>
      map_option commentsCount (findBlogById 1 d') = Some 1 \<and>
      map_option c_replies (findCommentById 1 d') = Some [2])"
proof -
  have f: "findCommentById 2 db2 = Some comment2" "\<not> c_isDeleted comment2"
    "c_user comment2 = user_id carol"
    "findBlogById (c_blog comment2) db2 = Some (post1\<lparr>commentsCount := 2\<rparr>)"
    "findCommentById 1 db2 = Some comment1"
    by (simp_all add: findCommentById_def findBlogById_def db2_def comment1_def comment2_def
        carol_def post1_def)
  have 1: "getComments 1 1 20 (SortDesc FieldCreatedAt) db2 = Inr ([(comment1, [comment2])], 1)"
    by code_simp
  have 2: "getComments 1 1 20 (SortDesc FieldCreatedAt) (snd (deleteComment carol 2 db2))
     = Inr ([(comment1, [])], 1)"
    by code_simp
  have 3: "map c_replies (comments (snd (deleteComment carol 2 db2))) = [[2], []]"
    by code_simp
  have 4: "map commentsCount (blogs (snd (deleteComment carol 2 db2))) = [1]"
    by code_simp
  from deleteComment_tombstone [OF f(1-4)] obtain d' where
    d': "deleteComment carol 2 db2 = (Inr (), d')"
      "findCommentById 2 d' = Some (comment2\<lparr>c_isDeleted := True, c_content := ''[deleted]''\<rparr>)"
      "map_option commentsCount (findBlogById (c_blog comment2) d')
         = Some (commentsCount (post1\<lparr>commentsCount := 2\<rparr>) - 1)"
      "\<forall>p pc. findCommentById p db2 = Some pc \<longrightarrow>
         map_option c_replies (findCommentById p d') = Some (c_replies pc)"
      "\<forall>blogId pn ln srt out n.
         getComments blogId pn ln srt d' = Inr (out, n) \<longrightarrow> 2 \<notin> set (listedIds out)"
    by blast
  from d'(5) 2 d'(1) have 5: "2 \<notin> set (listedIds [(comment1, [])])"
    by (metis snd_conv)
  from d'(4) [rule_format, OF f(5)]
  have 6: "map_option c_replies (findCommentById 1 d') = Some [2]"
    by (simp add: comment1_def)
  from d'(3) have 7: "map_option commentsCount (findBlogById 1 d') = Some 1"
    by (simp add: comment2_def)
  from 1 2 3 4 5 6 7 d'(1,2) show ?thesis by blast
qed

lemma deleteBlog_ok:
  assumes "findBlogById i d = Some b" and "validateBlog b" and "author b = user_id u"
  shows "deleteBlog now u i d = (Inr (), updateBlogById i (\<lambda>_. b\<lparr>isDeleted := True\<rparr>) d)"
proof -
  have "oid b = i" using assms(1) by (rule findBlogById_oid)
  with saveBlog_plain [OF assms(2), of "b\<lparr>isDeleted := True\<rparr>" now d] assms(1,3)
  show ?thesis by (simp add: deleteBlog_def)
qed

lemma deleteBlogAdmin_ok:
  assumes "findBlogById i d = Some b" and "validateBlog b" and "user_role a = RoleAdmin"
  shows "deleteBlogAdmin now a i d
     = (Inr (),
        (updateBlogById i (\<lambda>_. b\<lparr>isDeleted := True\<rparr>) d)
          \<lparr>comments := map (\<lambda>c. if c_blog c = i then c\<lparr>c_isDeleted := True\<rparr> else c)
                          (comments d)\<rparr>)"
proof -
  have "oid b = i" using assms(1) by (rule findBlogById_oid)
  with saveBlog_plain [OF assms(2), of "b\<lparr>isDeleted := True\<rparr>" now d] assms(1,3)
  show ?thesis by (simp add: deleteBlogAdmin_def)
qed

lemma marked_if:
  "c_blog (if c_blog c = i then c\<lparr>c_isDeleted := True\<rparr> else c) = i \<Longrightarrow>
   c_isDeleted (if c_blog c = i then c\<lparr>c_isDeleted := True\<rparr> else c)"
  by (cases "c_blog c = i") simp_all

lemma marked_deleted:
  assumes "x \<in> set (map (\<lambda>c. if c_blog c = i then c\<lparr>c_isDeleted := True\<rparr> else c) cs)"
    and i: "c_blog x = i"
  shows "c_isDeleted x"
proof -
  from assms(1) obtain c where "x = (if c_blog c = i then c\<lparr>c_isDeleted := True\<rparr> else c)"
    unfolding set_map by (elim imageE)
  with i marked_if [of c i] show ?thesis by (simp only:)
qed

text \<open>
  C8.  On a post that exists (and passes the schema validators): deleteBlog by its
  author stores the post with isDeleted true and leaves the comment collection exactly
  as it was; deleteBlogAdmin by a moderator stores the post with isDeleted true and
  sets isDeleted on every comment whose blog is this post, changing nothing else in the
  comment collection.
\<close>

theorem deleteBlog_cascade_asymmetry:
  "findBlogById i d = Some b \<Longrightarrow> validateBlog b \<Longrightarrow>
   (author b = user_id u \<longrightarrow>
      (\<exists>d'. deleteBlog now u i d = (Inr (), d') \<and>
         findBlogById i d' = Some (b\<lparr>isDeleted := True\<rparr>) \<and>
         comments d' = comments d)) \<and>
   (user_role a = RoleAdmin \<longrightarrow>
      (\<exists>d'. deleteBlogAdmin now a i d = (Inr (), d') \<and>
         findBlogById i d' = Some (b\<lparr>isDeleted := True\<rparr>) \<and>
         comments d' = map (\<lambda>c. if c_blog c = i then c\<lparr>c_isDeleted := True\<rparr> else c)
                         (comments d) \<and>
         (\<forall>c \<in> set (comments d'). c_blog c = i \<longrightarrow> c_isDeleted c)))"
proof (intro conjI impI)
  assume f: "findBlogById i d = Some b" and v: "validateBlog b"
  have ob: "oid b = i" using f by (rule findBlogById_oid)
  let ?d1 = "updateBlogById i (\<lambda>_. b\<lparr>isDeleted := True\<rparr>) d"
  have fb: "findBlogById i ?d1 = Some (b\<lparr>isDeleted := True\<rparr>)"
    using f ob by (simp add: findBlogById_saved)
  {
    assume "author b = user_id u"
    with f v have "deleteBlog now u i d = (Inr (), ?d1)" by (rule deleteBlog_ok)
    with fb show "\<exists>d'. deleteBlog now u i d = (Inr (), d') \<and>
         findBlogById i d' = Some (b\<lparr>isDeleted := True\<rparr>) \<and> comments d' = comments d"
      by simp
  }
  assume "user_role a = RoleAdmin"
  with f v have "deleteBlogAdmin now a i d
     = (Inr (), ?d1\<lparr>comments := map (\<lambda>c. if c_blog c = i then c\<lparr>c_isDeleted := True\<rparr> else c)
                          (comments d)\<rparr>)"
    (is "_ = (_, ?d2)")
    by (rule deleteBlogAdmin_ok)
  moreover have "findBlogById i ?d2 = Some (b\<lparr>isDeleted := True\<rparr>)"
    using fb by (simp add: findBlogById_def)
  moreover have c2: "comments ?d2
      = map (\<lambda>c. if c_blog c = i then c\<lparr>c_isDeleted := True\<rparr> else c) (comments d)"
    by simp
  moreover have "\<forall>c \<in> set (comments ?d2). c_blog c = i \<longrightarrow> c_isDeleted c"
  proof (intro ballI impI)
    fix c
    assume "c \<in> set (comments ?d2)" and "c_blog c = i"
    then show "c_isDeleted c" unfolding c2 by (rule marked_deleted)
  qed
  ultimately show "\<exists>d'. deleteBlogAdmin now a i d = (Inr (), d') \<and>
         findBlogById i d' = Some (b\<lparr>isDeleted := True\<rparr>) \<and>
         comments d' = map (\<lambda>c. if c_blog c = i then c\<lparr>c_isDeleted := True\<rparr> else c)
                         (comments d) \<and>
         (\<forall>c \<in> set (comments d'). c_blog c = i \<longrightarrow> c_isDeleted c)"
    by blast
qed

theorem deleteBlog_cascade_asymmetry_witness:
  "map c_isDeleted (comments db2) = [False, False] \<and>
   map isDeleted (blogs (snd (deleteBlog 6000 alice 1 db2))) = [True] \<and>
   map c_isDeleted (comments (snd (deleteBlog 6000 alice 1 db2))) = [False, False] \<and>
   map isDeleted (blogs (snd (deleteBlogAdmin 6000 carol 1 db2))) = [True] \<and>
   map c_isDeleted (comments (snd (deleteBlogAdmin 6000 carol 1 db2))) = [True, True] \<and>
   (\<exists>d'. deleteBlog 6000 alice 1 db2 = (Inr (), d') \<and> comments d' = comments db2) \<and>
   (\<exists>d'. deleteBlogAdmin 6000 carol 1 db2 = (Inr (), d') \<and>
      list_all c_isDeleted (comments d'))"
proof -
  have f: "findBlogById 1 db2 = Some (post1\<lparr>commentsCount := 2\<rparr>)"
    by (simp add: findBlogById_def db2_def post1_def)
  have v: "validateBlog (post1\<lparr>commentsCount := 2\<rparr>)" by code_simp
  have 1: "map c_isDeleted (comments db2) = [False, False]" by code_simp
  have 2: "map isDeleted (blogs (snd (deleteBlog 6000 alice 1 db2))) = [True]" by code_simp
  have 3: "map c_isDeleted (comments (snd (deleteBlog 6000 alice 1 db2))) = [False, False]"
    by code_simp
  have 4: "map isDeleted (blogs (snd (deleteBlogAdmin 6000 carol 1 db2))) = [True]"
    by code_simp
  have 5: "map c_isDeleted (comments (snd (deleteBlogAdmin 6000 carol 1 db2))) = [True, True]"
    by code_simp
  note inst = deleteBlog_cascade_asymmetry [OF f v, where u = alice and a = carol and now = 6000]
  have au: "author (post1\<lparr>commentsCount := 2\<rparr>) = user_id alice"
    and ad: "user_role carol = RoleAdmin"
    by (simp_all add: alice_def carol_def post1_def)
  from inst au have 6: "\<exists>d'. deleteBlog 6000 alice 1 db2 = (Inr (), d') \<and> comments d' = comments db2"
    by blast
  from inst ad obtain d' where d': "deleteBlogAdmin 6000 carol 1 db2 = (Inr (), d')"
    "\<forall>c \<in> set (comments d'). c_blog c = 1 \<longrightarrow> c_isDeleted c"
    "comments d' = map (\<lambda>c. if c_blog c = 1 then c\<lparr>c_isDeleted := True\<rparr> else c)
                         (comments db2)"
    by blast
  from d'(3) have "list_all c_isDeleted (comments d')"
    by (simp add: db2_def comment1_def comment2_def)
  with d'(1) have 7: "\<exists>d'. deleteBlogAdmin 6000 carol 1 db2 = (Inr (), d') \<and>
      list_all c_isDeleted (comments d')"
    by blast
  from 1 2 3 4 5 6 7 show ?thesis by blast
qed

end
